theory Spec2Isabelle
  imports
    Complex_Main
    "HOL-Library.AList"
    "HOL-Library.Char_ord"
    "HOL-Library.List_Lexorder"
    "HOL-Library.Multiset"
begin

section \<open>Strings\<close>

text \<open>
  Python strings are modelled as \<^typ>\<open>string\<close>. Comparison of strings (used by
  \<^verbatim>\<open>sorted\<close>) is the lexicographic order on characters, which is the order of
  \<^theory_text>\<open>List_Lexorder\<close> over \<^theory_text>\<open>Char_ord\<close>. The case conversions
  \<^verbatim>\<open>str.lower\<close> and \<^verbatim>\<open>str.upper\<close> are modelled on the ASCII letters; every
  other character is left as it is. \<^verbatim>\<open>str.strip\<close> removes the ASCII whitespace.
\<close>

definition lower_char :: "char \<Rightarrow> char" where
  "lower_char c =
     (let n = (of_char c :: nat) in if 65 \<le> n \<and> n \<le> 90 then char_of (n + 32) else c)"

definition upper_char :: "char \<Rightarrow> char" where
  "upper_char c =
     (let n = (of_char c :: nat) in if 97 \<le> n \<and> n \<le> 122 then char_of (n - 32) else c)"

definition lower :: "string \<Rightarrow> string" where
  "lower s = map lower_char s"

definition upper :: "string \<Rightarrow> string" where
  "upper s = map upper_char s"

text \<open>\<^verbatim>\<open>s.split(',')\<close>: the result is never empty, \<^verbatim>\<open>''.split(',') == ['']\<close>.\<close>

fun split :: "char \<Rightarrow> string \<Rightarrow> string list" where
  "split sep [] = [[]]"
| "split sep (c # cs) =
     (if c = sep then [] # split sep cs
      else (c # hd (split sep cs)) # tl (split sep cs))"

text \<open>\<^verbatim>\<open>','.join(xs)\<close>.\<close>

fun join :: "char \<Rightarrow> string list \<Rightarrow> string" where
  "join sep [] = []"
| "join sep [x] = x"
| "join sep (x # y # ys) = x @ sep # join sep (y # ys)"

text \<open>\<^verbatim>\<open>str(n)\<close> for an integer.\<close>

definition digit_char :: "nat \<Rightarrow> char" where
  "digit_char d = char_of (48 + d)"

function str_nat :: "nat \<Rightarrow> string" where
  "str_nat n = (if n < 10 then [digit_char n] else str_nat (n div 10) @ [digit_char (n mod 10)])"
  by pat_completeness auto
termination
  by (relation "measure id") auto

declare str_nat.simps [simp del]

definition str_int :: "int \<Rightarrow> string" where
  "str_int i = (if i < 0 then CHR ''-'' # str_nat (nat (- i)) else str_nat (nat i))"

section \<open>Record model\<close>

record group =
  number :: int
  week_day :: string
  room :: string
  course_length :: int
  frequency :: string
  hour :: string

text \<open>\<^verbatim>\<open>Group.__init__\<close>: the hour field is split at commas, sorted and joined again.\<close>

definition Group :: "int \<Rightarrow> string \<Rightarrow> string \<Rightarrow> int \<Rightarrow> string \<Rightarrow> string \<Rightarrow> group" where
  "Group n wd rm len freq h =
     \<lparr>number = n, week_day = wd, room = rm, course_length = len, frequency = freq,
      hour = join CHR '','' (sort (split CHR '','' h))\<rparr>"

text \<open>
  A \<^verbatim>\<open>defaultdict\<close> keyed in insertion order is an association list:
  \<^const>\<open>AList.update\<close> overwrites the value of a key in place and appends a new key at
  the end, as assignment to a Python dict does; reading a key gives the default when the
  key is missing.
\<close>

definition dd_get :: "'v \<Rightarrow> ('k \<times> 'v) list \<Rightarrow> 'k \<Rightarrow> 'v" where
  "dd_get d m k = (case map_of m k of None \<Rightarrow> d | Some v \<Rightarrow> v)"

type_synonym gkey = "string \<times> string \<times> string"

definition group_key :: "group \<Rightarrow> gkey" where
  "group_key g = (week_day g, room g, frequency g)"

text \<open>The inner loop of \<^verbatim>\<open>_merge_group_type\<close> over one bucket, filling
  \<^verbatim>\<open>merged_groups\<close> and \<^verbatim>\<open>hour_map\<close>.\<close>

fun merge_accumulate ::
  "group list \<Rightarrow> (gkey \<times> int) list \<Rightarrow> (gkey \<times> string list) list \<Rightarrow>
   (gkey \<times> int) list \<times> (gkey \<times> string list) list" where
  "merge_accumulate [] merged_groups hour_map = (merged_groups, hour_map)"
| "merge_accumulate (g # gs) merged_groups hour_map =
     (let key = group_key g in
      merge_accumulate gs
        (AList.update key (dd_get 0 merged_groups key + course_length g) merged_groups)
        (AList.update key (dd_get [] hour_map key @ [hour g]) hour_map))"

text \<open>The list comprehension that rebuilds the bucket of group number \<open>n\<close>.\<close>

definition merge_bucket :: "int \<Rightarrow> group list \<Rightarrow> group list" where
  "merge_bucket n group_list =
     (let (merged_groups, hour_map) = merge_accumulate group_list [] [] in
      map (\<lambda>((day, rm, freq), duration).
             Group n day rm duration freq (join CHR '','' (dd_get [] hour_map (day, rm, freq))))
          merged_groups)"

text \<open>\<^verbatim>\<open>_merge_group_type\<close>: every bucket of the mapping is replaced by its merge.\<close>

definition merge_group_type :: "(int \<rightharpoonup> group list) \<Rightarrow> (int \<rightharpoonup> group list)" where
  "merge_group_type groups =
     (\<lambda>n. case groups n of None \<Rightarrow> None | Some group_list \<Rightarrow> Some (merge_bucket n group_list))"

record course =
  sigle :: string
  name :: string
  nb_credit :: int
  theo_groups :: "int \<rightharpoonup> group list"
  lab_groups :: "int \<rightharpoonup> group list"

definition Course :: "string \<Rightarrow> string \<Rightarrow> int \<Rightarrow> course" where
  "Course s nm cr =
     \<lparr>sigle = s, name = nm, nb_credit = cr, theo_groups = Map.empty, lab_groups = Map.empty\<rparr>"

definition merge_groups :: "course \<Rightarrow> course" where
  "merge_groups c =
     c\<lparr>theo_groups := merge_group_type (theo_groups c),
       lab_groups := merge_group_type (lab_groups c)\<rparr>"

text \<open>\<^verbatim>\<open>self.theo_groups[group.number].append(group)\<close> on a \<^verbatim>\<open>defaultdict(list)\<close>.\<close>

definition bucket_append :: "(int \<rightharpoonup> group list) \<Rightarrow> group \<Rightarrow> (int \<rightharpoonup> group list)" where
  "bucket_append groups g =
     groups(number g \<mapsto> (case groups (number g) of None \<Rightarrow> [] | Some gs \<Rightarrow> gs) @ [g])"

definition add_group :: "string \<Rightarrow> group \<Rightarrow> course \<Rightarrow> course" where
  "add_group group_type g c =
     merge_groups
       (if lower group_type = ''c'' then c\<lparr>theo_groups := bucket_append (theo_groups c) g\<rparr>
        else if lower group_type = ''l'' then c\<lparr>lab_groups := bucket_append (lab_groups c) g\<rparr>
        else c)"

definition get_specific_group :: "course \<Rightarrow> string \<Rightarrow> int \<Rightarrow> group list option" where
  "get_specific_group c group_type group_number =
     (if lower group_type = ''c'' then theo_groups c group_number
      else if lower group_type = ''l'' then lab_groups c group_number
      else None)"

section \<open>CSV ingestion\<close>

text \<open>
  Exceptions of the source are values. The library parsers are parameters of the model:
  \<open>py_int\<close> is \<^verbatim>\<open>int(s)\<close> and \<open>py_float\<close> is \<^verbatim>\<open>float(s)\<close>, with \<open>None\<close> for
  \<^verbatim>\<open>ValueError\<close>; \<open>strptime_date\<close> is \<^verbatim>\<open>datetime.strptime(s, '%Y-%m-%d')\<close> and
  \<open>strptime_hm\<close> is \<^verbatim>\<open>datetime.strptime(s, '%H%M')\<close>. A date is the ordinal number of
  its day, so that adding \<^verbatim>\<open>timedelta(days=1)\<close> is adding one; the upper limit of the
  library's datetime range is not modelled.
\<close>

datatype error = ValueError | OverflowError | IndexError | StopIteration | OSError

datatype pyfloat = Finite rat | Infinite | NaN

type_synonym date = int

text \<open>\<^verbatim>\<open>int(x)\<close> on a float truncates towards zero and raises on infinities and NaN.\<close>

definition int_of_float :: "pyfloat \<Rightarrow> error + int" where
  "int_of_float x =
     (case x of
        Finite r \<Rightarrow> Inr (if 0 \<le> r then \<lfloor>r\<rfloor> else \<lceil>r\<rceil>)
      | Infinite \<Rightarrow> Inl OverflowError
      | NaN \<Rightarrow> Inl ValueError)"

definition replace :: "char \<Rightarrow> char \<Rightarrow> string \<Rightarrow> string" where
  "replace a b s = map (\<lambda>c. if c = a then b else c) s"

definition is_space :: "char \<Rightarrow> bool" where
  "is_space c = (let n = (of_char c :: nat) in (9 \<le> n \<and> n \<le> 13) \<or> (28 \<le> n \<and> n \<le> 32))"

definition strip :: "string \<Rightarrow> string" where
  "strip s = rev (dropWhile is_space (rev (dropWhile is_space s)))"

type_synonym registry = "string \<rightharpoonup> course"

text \<open>
  The body of the loop of \<^verbatim>\<open>read_csv_files\<close> for one row. \<open>Inr\<close> of the unchanged
  registry is \<^verbatim>\<open>continue\<close>. The tuple assignment of the row to fifteen names raises
  \<^verbatim>\<open>ValueError\<close> outside the \<^verbatim>\<open>try\<close> block when the row has more than fifteen
  fields.
\<close>

definition read_row ::
  "(string \<Rightarrow> int option) \<Rightarrow> (string \<Rightarrow> pyfloat option) \<Rightarrow> registry \<Rightarrow> string list \<Rightarrow>
   error + registry" where
  "read_row py_int py_float courses row =
     (if length row < 15 then Inr courses
      else if length row \<noteq> 15 then Inl ValueError
      else
        let sigle' = row ! 1; number' = row ! 2; nb_credit' = row ! 3; room' = row ! 6;
            period_type = row ! 7; week_nb = row ! 9; course_type = row ! 10;
            name' = row ! 11; week_day' = row ! 13; hour' = row ! 14
        in
        if sigle' = [] \<or> number' = [] \<or> nb_credit' = [] \<or> room' = [] \<or> period_type = [] \<or>
           course_type = [] \<or> name' = [] \<or> week_day' = [] \<or> hour' = []
        then Inr courses
        else
          (case py_int number' of
             None \<Rightarrow> Inr courses
           | Some n \<Rightarrow>
               (case py_float (replace CHR '','' CHR ''.'' nb_credit') of
                  None \<Rightarrow> Inr courses
                | Some f \<Rightarrow>
                    (case int_of_float f of
                       Inl ValueError \<Rightarrow> Inr courses
                     | Inl e \<Rightarrow> Inl e
                     | Inr credit \<Rightarrow>
                         let course_length' = 1;
                             frequency' =
                               (if week_nb = ''I'' then ''B1''
                                else if week_nb = ''P'' then ''B2''
                                else ''every_week'');
                             c = (case courses sigle' of
                                    None \<Rightarrow> Course sigle' name' credit
                                  | Some c \<Rightarrow> c);
                             g = Group n week_day' room' course_length' frequency' hour'
                         in Inr (courses(sigle' \<mapsto> add_group (lower period_type) g c))))))"

fun read_rows ::
  "(string \<Rightarrow> int option) \<Rightarrow> (string \<Rightarrow> pyfloat option) \<Rightarrow> registry \<Rightarrow> string list list \<Rightarrow>
   error + registry" where
  "read_rows py_int py_float courses [] = Inr courses"
| "read_rows py_int py_float courses (row # rows) =
     (case read_row py_int py_float courses row of
        Inl e \<Rightarrow> Inl e
      | Inr courses' \<Rightarrow> read_rows py_int py_float courses' rows)"

text \<open>
  \<^verbatim>\<open>read_csv_files\<close>: the file is \<open>None\<close> when it cannot be opened, and otherwise the
  rows that \<^verbatim>\<open>csv.reader\<close> yields; the first row is the header.
\<close>

definition read_csv_files ::
  "(string \<Rightarrow> int option) \<Rightarrow> (string \<Rightarrow> pyfloat option) \<Rightarrow> registry \<Rightarrow>
   string list list option \<Rightarrow> error + registry" where
  "read_csv_files py_int py_float courses file =
     (case file of
        None \<Rightarrow> Inl OSError
      | Some [] \<Rightarrow> Inl StopIteration
      | Some (header # rows) \<Rightarrow> read_rows py_int py_float courses rows)"

definition get_course :: "registry \<Rightarrow> string \<Rightarrow> course option" where
  "get_course courses s = courses s"

record alternance_info =
  day_name :: string
  week_type :: string

type_synonym alternance = "(date \<times> alternance_info) list"

definition read_alternance_row ::
  "(string \<Rightarrow> date option) \<Rightarrow> alternance \<Rightarrow> string list \<Rightarrow> error + alternance" where
  "read_alternance_row strptime_date week_map row =
     (if length row < 3 then Inr week_map
      else if length row \<noteq> 3 then Inl ValueError
      else
        let date_str = row ! 0; day_name' = row ! 1; week_type' = row ! 2 in
        (case strptime_date date_str of
           None \<Rightarrow> Inr week_map
         | Some d \<Rightarrow>
             Inr (AList.update d
                    \<lparr>day_name = upper (strip day_name'), week_type = upper (strip week_type')\<rparr>
                    week_map)))"

fun read_alternance_rows ::
  "(string \<Rightarrow> date option) \<Rightarrow> alternance \<Rightarrow> string list list \<Rightarrow> error + alternance" where
  "read_alternance_rows strptime_date week_map [] = Inr week_map"
| "read_alternance_rows strptime_date week_map (row # rows) =
     (case read_alternance_row strptime_date week_map row of
        Inl e \<Rightarrow> Inl e
      | Inr week_map' \<Rightarrow> read_alternance_rows strptime_date week_map' rows)"

definition read_alternance_csv ::
  "(string \<Rightarrow> date option) \<Rightarrow> string list list option \<Rightarrow> error + alternance" where
  "read_alternance_csv strptime_date file =
     (case file of
        None \<Rightarrow> Inl OSError
      | Some [] \<Rightarrow> Inl StopIteration
      | Some (header # rows) \<Rightarrow> read_alternance_rows strptime_date [] rows)"

section \<open>Calendar expansion\<close>

definition FULL_DAY_TO_ABBREVIATION :: "(string \<times> string) list" where
  "FULL_DAY_TO_ABBREVIATION =
     [(''LUNDI'', ''LUN''), (''MARDI'', ''MAR''), (''MERCREDI'', ''MER''), (''JEUDI'', ''JEU''),
      (''VENDREDI'', ''VEN''), (''SAMEDI'', ''SAM''), (''DIMANCHE'', ''DIM'')]"

text \<open>\<^verbatim>\<open>datetime(2024, 10, 1)\<close> as a day ordinal.\<close>

definition october_first :: date where
  "october_first = 739160"

record datetime =
  dt_date :: date
  dt_hour :: nat
  dt_minute :: nat
  dt_tz :: "string option"

definition montreal_tz :: string where
  "montreal_tz = ''America/Toronto''"

record alarm =
  action :: string
  trigger_minutes :: int

record event =
  ev_name :: string
  ev_begin :: datetime
  ev_duration_hours :: nat
  ev_location :: string
  ev_alarms :: "alarm list"

text \<open>The abbreviation of the day, with the special case of October 1st.\<close>

definition resolve_day_abbr :: "date \<Rightarrow> alternance_info \<Rightarrow> string" where
  "resolve_day_abbr current_date alternance_info =
     (let full_day_name = day_name alternance_info;
          day_abbr = (case map_of FULL_DAY_TO_ABBREVIATION full_day_name of
                        None \<Rightarrow> full_day_name
                      | Some a \<Rightarrow> a)
      in if current_date = october_first then ''LUN'' else day_abbr)"

text \<open>The construction of the event, from line 204 of the source on.\<close>

definition make_event ::
  "(string \<Rightarrow> (nat \<times> nat) option) \<Rightarrow> course \<Rightarrow> string \<Rightarrow> group \<Rightarrow> date \<Rightarrow> error + event" where
  "make_event strptime_hm c group_type g current_date =
     (let start_time_str = hd (split CHR '','' (hour g)) in
      case strptime_hm start_time_str of
        None \<Rightarrow> Inl ValueError
      | Some (h, m) \<Rightarrow>
          let event_date_time =
                \<lparr>dt_date = current_date, dt_hour = h, dt_minute = m, dt_tz = Some montreal_tz\<rparr>;
              total_hours = length (split CHR '','' (hour g))
          in Inr \<lparr>ev_name = sigle c @ '' - '' @ name c @ '' - Groupe '' @ str_int (number g) @
                            '' ('' @ (if group_type = ''c'' then ''COURS'' else ''LAB'') @ '')'',
                  ev_begin = event_date_time,
                  ev_duration_hours = total_hours,
                  ev_location = room g,
                  ev_alarms = [\<lparr>action = ''display'', trigger_minutes = - 30\<rparr>]\<rparr>)"

text \<open>The body of the \<^verbatim>\<open>while\<close> loop for one day: the events it adds to the calendar.\<close>

definition day_body ::
  "(string \<Rightarrow> (nat \<times> nat) option) \<Rightarrow> alternance \<Rightarrow> course \<Rightarrow> string \<Rightarrow> group \<Rightarrow> date \<Rightarrow>
   error + event list" where
  "day_body strptime_hm alternance_map c group_type g current_date =
     (let frequency' = lower (frequency g) in
      case map_of alternance_map current_date of
        None \<Rightarrow> Inr []
      | Some alternance_info \<Rightarrow>
          let week_type' = week_type alternance_info;
              day_abbr = resolve_day_abbr current_date alternance_info
          in
          if day_abbr = upper (week_day g) \<and>
             (frequency' = ''every_week'' \<or>
              (frequency' = ''b1'' \<and> week_type' = ''B1'') \<or>
              (frequency' = ''b2'' \<and> week_type' = ''B2''))
          then (case make_event strptime_hm c group_type g current_date of
                  Inl e \<Rightarrow> Inl e
                | Inr ev \<Rightarrow> Inr [ev])
          else Inr [])"

function day_loop ::
  "(string \<Rightarrow> (nat \<times> nat) option) \<Rightarrow> alternance \<Rightarrow> course \<Rightarrow> string \<Rightarrow> group \<Rightarrow> date \<Rightarrow> date \<Rightarrow>
   error + event list" where
  "day_loop strptime_hm alternance_map c group_type g current_date semester_end_date =
     (if current_date \<le> semester_end_date then
        (case day_body strptime_hm alternance_map c group_type g current_date of
           Inl e \<Rightarrow> Inl e
         | Inr evs \<Rightarrow>
             (case day_loop strptime_hm alternance_map c group_type g (current_date + 1)
                     semester_end_date of
                Inl e \<Rightarrow> Inl e
              | Inr rest \<Rightarrow> Inr (evs @ rest)))
      else Inr [])"
  by pat_completeness auto
termination
  by (relation "measure (\<lambda>(strptime_hm, alternance_map, c, group_type, g, current_date,
         semester_end_date). nat (semester_end_date + 1 - current_date))") auto

declare day_loop.simps [simp del]

text \<open>A \<^verbatim>\<open>for\<close> loop whose body adds events to the calendar or raises.\<close>

fun collect :: "('a \<Rightarrow> error + 'b list) \<Rightarrow> 'a list \<Rightarrow> error + 'b list" where
  "collect f [] = Inr []"
| "collect f (x # xs) =
     (case f x of
        Inl e \<Rightarrow> Inl e
      | Inr ys \<Rightarrow> (case collect f xs of Inl e \<Rightarrow> Inl e | Inr zs \<Rightarrow> Inr (ys @ zs)))"

definition events_of_number ::
  "(string \<Rightarrow> (nat \<times> nat) option) \<Rightarrow> alternance \<Rightarrow> date \<Rightarrow> date \<Rightarrow> course \<Rightarrow> string \<Rightarrow> int \<Rightarrow>
   error + event list" where
  "events_of_number strptime_hm alternance_map semester_start_date semester_end_date c
     group_type group_number =
     (case get_specific_group c group_type group_number of
        None \<Rightarrow> Inr []
      | Some groups \<Rightarrow>
          if groups = [] then Inr []
          else collect
                 (\<lambda>g. day_loop strptime_hm alternance_map c group_type g semester_start_date
                        semester_end_date)
                 groups)"

definition events_of_course ::
  "(string \<Rightarrow> (nat \<times> nat) option) \<Rightarrow> registry \<Rightarrow> alternance \<Rightarrow> date \<Rightarrow> date \<Rightarrow>
   string \<times> (string \<times> int list) list \<Rightarrow> error + event list" where
  "events_of_course strptime_hm courses_manager alternance_map semester_start_date
     semester_end_date entry =
     (case get_course courses_manager (fst entry) of
        None \<Rightarrow> Inr []
      | Some c \<Rightarrow>
          collect
            (\<lambda>sel. collect
                     (events_of_number strptime_hm alternance_map semester_start_date
                        semester_end_date c (fst sel))
                     (snd sel))
            (snd entry))"

text \<open>
  \<^verbatim>\<open>generate_ics_file\<close>: the result is the events added to the calendar, in the order
  the loops add them, or the exception that ends the run before the file is written. The
  selection is the list of the items of \<^verbatim>\<open>courses_to_convert\<close>.
\<close>

definition generate_ics_file ::
  "(string \<Rightarrow> (nat \<times> nat) option) \<Rightarrow> registry \<Rightarrow> (string \<times> (string \<times> int list) list) list \<Rightarrow>
   alternance \<Rightarrow> error + event list" where
  "generate_ics_file strptime_hm courses_manager courses_to_convert alternance_map =
     (let semester_dates = sort (map fst alternance_map) in
      if semester_dates = [] then Inl IndexError
      else
        let semester_start_date = hd semester_dates;
            semester_end_date = last semester_dates
        in collect
             (events_of_course strptime_hm courses_manager alternance_map semester_start_date
                semester_end_date)
             courses_to_convert)"

section \<open>Notions used in the statements\<close>

text \<open>The total length and the hour fields of the groups of a bucket that share a key, and the
  group that merging builds for a key.\<close>

definition key_lengths :: "gkey \<Rightarrow> group list \<Rightarrow> int" where
  "key_lengths k gs = sum_list (map course_length (filter (\<lambda>g. group_key g = k) gs))"

definition key_hours :: "gkey \<Rightarrow> group list \<Rightarrow> string list" where
  "key_hours k gs = map hour (filter (\<lambda>g. group_key g = k) gs)"

definition merged_keys :: "group list \<Rightarrow> gkey list" where
  "merged_keys gs = map fst (fst (merge_accumulate gs [] []))"

definition merged_of :: "int \<Rightarrow> group list \<Rightarrow> gkey \<Rightarrow> group" where
  "merged_of n gs k =
     Group n (fst k) (fst (snd k)) (key_lengths k gs) (snd (snd k))
       (join CHR '','' (key_hours k gs))"

text \<open>
  The hour field as the specification words it: the sorted, comma-joined set of the
  tokens, every token once.
\<close>

definition hour_field_spec :: "string list \<Rightarrow> string \<Rightarrow> bool" where
  "hour_field_spec tokens h \<longleftrightarrow> h = join CHR '','' (sort (remdups tokens))"

text \<open>
  A parser of the four-digit form \<^verbatim>\<open>HHMM\<close>, on which it agrees with
  \<^verbatim>\<open>strptime(s, '%H%M')\<close>; it takes the place of the library parser in concrete runs.
\<close>

definition digit_val :: "char \<Rightarrow> nat option" where
  "digit_val c = (let n = (of_char c :: nat) in if 48 \<le> n \<and> n \<le> 57 then Some (n - 48) else None)"

definition hhmm :: "string \<Rightarrow> (nat \<times> nat) option" where
  "hhmm s =
     (case map digit_val s of
        [Some a, Some b, Some c, Some d] \<Rightarrow>
          if 10 * a + b < 24 \<and> 10 * c + d < 60 then Some (10 * a + b, 10 * c + d) else None
      | _ \<Rightarrow> None)"

text \<open>An event that begins on day \<open>d\<close> is among the events of a run.\<close>

definition emitted_on :: "error + event list \<Rightarrow> date \<Rightarrow> bool" where
  "emitted_on r d =
     (case r of Inl e \<Rightarrow> False | Inr evs \<Rightarrow> list_ex (\<lambda>ev. dt_date (ev_begin ev) = d) evs)"

text \<open>The events that one day adds to the calendar, when the day raises no exception.\<close>

definition day_events ::
  "(string \<Rightarrow> (nat \<times> nat) option) \<Rightarrow> alternance \<Rightarrow> course \<Rightarrow> string \<Rightarrow> group \<Rightarrow> date \<Rightarrow>
   event list" where
  "day_events strptime_hm alternance_map c group_type g d =
     (case day_body strptime_hm alternance_map c group_type g d of Inl e \<Rightarrow> [] | Inr evs \<Rightarrow> evs)"

text \<open>
  The condition for emitting an event as the specification words it: the abbreviation of
  the day equals the weekday token of the group and the frequency test passes.
\<close>

definition emits_spec :: "group \<Rightarrow> date \<Rightarrow> alternance_info \<Rightarrow> bool" where
  "emits_spec g d info \<longleftrightarrow>
     resolve_day_abbr d info = week_day g \<and>
     (frequency g = ''every_week'' \<or>
      (frequency g = ''B1'' \<and> week_type info = ''B1'') \<or>
      (frequency g = ''B2'' \<and> week_type info = ''B2''))"

text \<open>The title of an event, with the label between the parentheses.\<close>

definition event_title :: "course \<Rightarrow> group \<Rightarrow> string \<Rightarrow> string" where
  "event_title c g label =
     sigle c @ '' - '' @ name c @ '' - Groupe '' @ str_int (number g) @ '' ('' @ label @ '')''"

text \<open>
  A row of the timetable that passes every check of \<^verbatim>\<open>read_csv_files\<close>, with the
  group number and the credit count that the library parsers give; the group and the
  course that the row then adds to.
\<close>

definition row_group :: "int \<Rightarrow> string list \<Rightarrow> group" where
  "row_group n row =
     Group n (row ! 13) (row ! 6) 1
       (if row ! 9 = ''I'' then ''B1'' else if row ! 9 = ''P'' then ''B2'' else ''every_week'')
       (row ! 14)"

definition row_course :: "registry \<Rightarrow> int \<Rightarrow> string list \<Rightarrow> course" where
  "row_course courses credit row =
     (case courses (row ! 1) of None \<Rightarrow> Course (row ! 1) (row ! 11) credit | Some c \<Rightarrow> c)"

definition well_formed_row ::
  "(string \<Rightarrow> int option) \<Rightarrow> (string \<Rightarrow> pyfloat option) \<Rightarrow> string list \<Rightarrow> int \<Rightarrow> int \<Rightarrow> bool" where
  "well_formed_row py_int py_float row n credit \<longleftrightarrow>
     length row = 15 \<and>
     list_all (\<lambda>i. row ! i \<noteq> []) [1, 2, 3, 6, 7, 10, 11, 13, 14] \<and>
     py_int (row ! 2) = Some n \<and>
     (case py_float (replace CHR '','' CHR ''.'' (row ! 3)) of
        None \<Rightarrow> False
      | Some f \<Rightarrow> int_of_float f = Inr credit)"

text \<open>The bucket of a course of the registry, after a row has been read.\<close>

definition placed_in :: "error + registry \<Rightarrow> string \<Rightarrow> string \<Rightarrow> int \<Rightarrow> group list option" where
  "placed_in r code group_type n =
     (case r of
        Inl e \<Rightarrow> None
      | Inr courses \<Rightarrow>
          (case courses code of None \<Rightarrow> None | Some c \<Rightarrow> get_specific_group c group_type n))"

text \<open>
  The timetable row of the end-to-end scenario, with its columns 7 and 10 left open, and
  the library parsers on the two numbers of that row.
\<close>

definition scenario_row :: "string \<Rightarrow> string \<Rightarrow> string list" where
  "scenario_row period_type course_type =
     [[], ''LOG1810'', ''2'', ''3,0'', [], [], ''B-2325'', period_type, [], [],
      course_type, ''Elements de logiciel'', [], ''LUN'', ''0830,0930'']"

definition example_int :: "string \<Rightarrow> int option" where
  "example_int = map_of [(''2'', 2)]"

definition example_float :: "string \<Rightarrow> pyfloat option" where
  "example_float = map_of [(''3.0'', Finite 3)]"

text \<open>
  The strings of ASCII characters, on which the case conversions of the model are those
  of the library, and the ordinal of 9999-12-31, the last day that a
  \<^verbatim>\<open>datetime\<close> holds: a calendar that ends before it is walked without overflow.
\<close>

definition is_ascii :: "string \<Rightarrow> bool" where
  "is_ascii s = list_all (\<lambda>ch. (of_char ch :: nat) < 128) s"

definition date_max :: date where
  "date_max = 3652059"

text \<open>
  A group that the selection resolves to: the selection has an entry for a course of the
  registry, with the group type and a group number whose bucket holds the group.
\<close>

definition selected ::
  "registry \<Rightarrow> (string \<times> (string \<times> int list) list) list \<Rightarrow> course \<Rightarrow> string \<Rightarrow> group \<Rightarrow> bool" where
  "selected courses_manager courses_to_convert c group_type g \<longleftrightarrow>
     (\<exists>entry\<in>set courses_to_convert.
        get_course courses_manager (fst entry) = Some c \<and>
        (\<exists>sel\<in>set (snd entry).
           fst sel = group_type \<and>
           (\<exists>n\<in>set (snd sel).
              \<exists>gs. get_specific_group c group_type n = Some gs \<and> g \<in> set gs)))"

section \<open>Splitting and joining\<close>

lemma split_nonempty: "split sep s \<noteq> []"
  by (induction s) auto

lemma split_append_sep: "split sep (a @ sep # b) = split sep a @ split sep b"
  by (induction a) (auto simp: split_nonempty)

lemma split_token: "sep \<notin> set x \<Longrightarrow> split sep x = [x]"
  by (induction x) auto

lemma split_token_sep: "sep \<notin> set x \<Longrightarrow> split sep (x @ sep # b) = x # split sep b"
  by (induction x) auto

lemma split_join: "xs \<noteq> [] \<Longrightarrow> \<forall>x\<in>set xs. sep \<notin> set x \<Longrightarrow> split sep (join sep xs) = xs"
  by (induction sep xs rule: join.induct) (auto simp: split_token split_token_sep)

lemma split_join_concat: "hs \<noteq> [] \<Longrightarrow> split sep (join sep hs) = concat (map (split sep) hs)"
  by (induction sep hs rule: join.induct) (auto simp: split_append_sep)

lemma dd_get_update: "dd_get d (AList.update key v m) k = (if k = key then v else dd_get d m k)"
  by (simp add: dd_get_def update_conv')

lemma dd_get_Nil: "dd_get d [] k = d"
  by (simp add: dd_get_def)

lemma acc_lengths:
  "dd_get 0 (fst (merge_accumulate gs mg hm)) k = dd_get 0 mg k + key_lengths k gs"
  by (induction gs arbitrary: mg hm) (auto simp: Let_def dd_get_update key_lengths_def)

lemma acc_hours:
  "dd_get [] (snd (merge_accumulate gs mg hm)) k = dd_get [] hm k @ key_hours k gs"
  by (induction gs arbitrary: mg hm) (auto simp: Let_def dd_get_update key_hours_def)

lemma acc_distinct:
  "distinct (map fst mg) \<Longrightarrow> distinct (map fst (fst (merge_accumulate gs mg hm)))"
  by (induction gs arbitrary: mg hm) (auto simp: Let_def distinct_update)

lemma acc_keys_set:
  "fst ` set (fst (merge_accumulate gs mg hm)) = fst ` set mg \<union> group_key ` set gs"
  by (induction gs arbitrary: mg hm) (simp_all add: Let_def dom_update Un_ac)

lemma acc_keys_fresh:
  "distinct (map group_key gs) \<Longrightarrow> fst ` set mg \<inter> group_key ` set gs = {} \<Longrightarrow>
   map fst (fst (merge_accumulate gs mg hm)) = map fst mg @ map group_key gs"
proof (induction gs arbitrary: mg hm)
  case Nil
  then show ?case by simp
next
  case (Cons g gs)
  let ?mg = "AList.update (group_key g) (dd_get 0 mg (group_key g) + course_length g) mg"
  let ?hm = "AList.update (group_key g) (dd_get [] hm (group_key g) @ [hour g]) hm"
  have fresh: "group_key g \<notin> fst ` set mg"
    using Cons.prems(2) by auto
  have keys: "map fst ?mg = map fst mg @ [group_key g]"
    using fresh by (simp add: update_keys)
  have "fst ` set ?mg \<inter> group_key ` set gs = {}"
    using Cons.prems by (auto simp: dom_update)
  moreover have "distinct (map group_key gs)"
    using Cons.prems(1) by simp
  ultimately have "map fst (fst (merge_accumulate gs ?mg ?hm)) = map fst ?mg @ map group_key gs"
    by (rule Cons.IH [rotated])
  then show ?case
    by (simp add: Let_def keys)
qed

lemma distinct_map_of_fst: "distinct (map fst al) \<Longrightarrow> (k, v) \<in> set al \<Longrightarrow> dd_get d al k = v"
  by (simp add: dd_get_def)

lemma merge_bucket_eq: "merge_bucket n gs = map (merged_of n gs) (merged_keys gs)"
proof -
  obtain mg hm where acc: "merge_accumulate gs [] [] = (mg, hm)"
    by (cases "merge_accumulate gs [] []")
  have dist: "distinct (map fst mg)"
    using acc_distinct [of "[]" gs "[]"] acc by simp
  have len: "dd_get 0 mg k = key_lengths k gs" for k
    using acc_lengths [of gs "[]" "[]" k] acc by (simp add: dd_get_Nil)
  have hrs: "dd_get [] hm k = key_hours k gs" for k
    using acc_hours [of gs "[]" "[]" k] acc by (simp add: dd_get_Nil)
  have "Group n (fst (fst p)) (fst (snd (fst p))) (snd p) (snd (snd (fst p)))
           (join CHR '','' (dd_get [] hm (fst p)))
        = merged_of n gs (fst p)" if p: "p \<in> set mg" for p
  proof -
    have "snd p = key_lengths (fst p) gs"
      using distinct_map_of_fst [OF dist, of "fst p" "snd p" 0] p len by simp
    then show ?thesis
      by (simp add: merged_of_def hrs)
  qed
  then show ?thesis
    by (simp add: merge_bucket_def acc merged_keys_def case_prod_beta)
qed

lemma distinct_merged_keys: "distinct (merged_keys gs)"
  using acc_distinct [of "[]" gs "[]"] by (simp add: merged_keys_def)

lemma set_merged_keys: "set (merged_keys gs) = group_key ` set gs"
  using acc_keys_set [of gs "[]" "[]"] by (simp add: merged_keys_def)

lemma group_key_merged_of: "group_key (merged_of n gs k) = k"
  by (simp add: merged_of_def group_key_def Group_def)

lemma filter_key_merged:
  assumes "distinct ks" and "k \<in> set ks"
  shows "filter (\<lambda>g. group_key g = k) (map (merged_of n gs) ks) = [merged_of n gs k]"
  using assms by (induction ks) (auto simp: group_key_merged_of filter_empty_conv)

lemma merged_keys_distinct_input: "distinct (map group_key gs) \<Longrightarrow> merged_keys gs = map group_key gs"
  using acc_keys_fresh [of gs "[]" "[]"] by (simp add: merged_keys_def)

lemma split_no_sep: "t \<in> set (split sep s) \<Longrightarrow> sep \<notin> set t"
proof (induction s arbitrary: t)
  case Nil
  then show ?case by simp
next
  case (Cons c cs)
  have ne: "split sep cs \<noteq> []" by (rule split_nonempty)
  show ?case
  proof (cases "c = sep")
    case True
    with Cons show ?thesis by auto
  next
    case False
    with Cons.prems have "t = c # hd (split sep cs) \<or> t \<in> set (tl (split sep cs))" by simp
    then show ?thesis
    proof
      assume "t = c # hd (split sep cs)"
      moreover have "sep \<notin> set (hd (split sep cs))" using Cons.IH ne by simp
      ultimately show ?thesis using False by auto
    next
      assume "t \<in> set (tl (split sep cs))"
      then have "t \<in> set (split sep cs)" using ne by (meson list.set_sel(2))
      then show ?thesis by (rule Cons.IH)
    qed
  qed
qed

lemma split_join_sort_split:
  "split sep (join sep (sort (split sep h))) = sort (split sep h)"
proof (rule split_join)
  show "sort (split sep h) \<noteq> []"
  proof
    assume "sort (split sep h) = []"
    then have "length (sort (split sep h)) = 0" by simp
    then have "length (split sep h) = 0" by (simp only: length_sort)
    then show False using split_nonempty [of sep h] by simp
  qed
  show "\<forall>x\<in>set (sort (split sep h)). sep \<notin> set x"
    by (simp add: split_no_sep)
qed

lemma tokens_Group: "split CHR '','' (hour (Group n wd rm len freq h)) = sort (split CHR '','' h)"
  by (simp add: Group_def split_join_sort_split)

lemma Group_hour_fixed:
  "Group n wd rm len freq (hour (Group n' wd' rm' len' freq' h)) = Group n wd rm len freq h"
  by (simp add: Group_def split_join_sort_split sorted_sort_id)

lemma key_hours_nonempty: "k \<in> group_key ` set gs \<Longrightarrow> key_hours k gs \<noteq> []"
  by (auto simp: key_hours_def filter_empty_conv)

lemma merge_bucket_idem: "merge_bucket n (merge_bucket n gs) = merge_bucket n gs"
proof -
  let ?ks = "merged_keys gs"
  let ?ms = "map (merged_of n gs) ?ks"
  have keys: "map group_key ?ms = ?ks"
    by (simp add: group_key_merged_of comp_def)
  have mk: "merged_keys ?ms = ?ks"
    using merged_keys_distinct_input [of ?ms] keys distinct_merged_keys [of gs] by simp
  have "merged_of n ?ms k = merged_of n gs k" if k: "k \<in> set ?ks" for k
  proof -
    have f: "filter (\<lambda>g. group_key g = k) ?ms = [merged_of n gs k]"
      using filter_key_merged [OF distinct_merged_keys k] .
    have "merged_of n ?ms k =
          Group n (fst k) (fst (snd k)) (course_length (merged_of n gs k)) (snd (snd k))
            (hour (merged_of n gs k))"
      by (simp add: merged_of_def [of n ?ms k] key_lengths_def key_hours_def f)
    also have "\<dots> = merged_of n gs k"
      by (simp add: merged_of_def [of n gs k] Group_hour_fixed) (simp add: Group_def)
    finally show ?thesis .
  qed
  then have "map (merged_of n ?ms) ?ks = map (merged_of n gs) ?ks"
    by simp
  then show ?thesis
    by (simp add: merge_bucket_eq mk)
qed

lemma merged_filter:
  "k \<in> group_key ` set gs \<Longrightarrow>
   filter (\<lambda>g. group_key g = k) (merge_bucket n gs) = [merged_of n gs k]"
  by (simp add: merge_bucket_eq filter_key_merged distinct_merged_keys set_merged_keys)

lemma course_length_merged_of: "course_length (merged_of n gs k) = key_lengths k gs"
  by (simp add: merged_of_def Group_def)

lemma key_lengths_mset: "mset gs' = mset gs \<Longrightarrow> key_lengths k gs' = key_lengths k gs"
proof -
  assume eq: "mset gs' = mset gs"
  have "key_lengths k xs = sum_mset (image_mset course_length (filter_mset (\<lambda>g. group_key g = k) (mset xs)))" for xs
    by (simp add: key_lengths_def sum_mset_sum_list [symmetric] del: sum_mset_sum_list)
  then show ?thesis using eq by simp
qed

lemma distinct_set_singleton: "set xs = {k} \<Longrightarrow> distinct xs \<Longrightarrow> xs = [k]"
proof (cases xs)
  case Nil
  assume "set xs = {k}"
  with Nil show ?thesis by simp
next
  case (Cons x ys)
  assume s: "set xs = {k}" and d: "distinct xs"
  from s Cons have x: "x = k" by auto
  have "set ys \<subseteq> {k}" using s Cons by auto
  moreover have "k \<notin> set ys" using d Cons x by simp
  ultimately have "ys = []" by (cases ys) auto
  then show ?thesis using Cons x by simp
qed

lemma merged_single:
  assumes "gs \<noteq> []" and "\<forall>g\<in>set gs. group_key g = k"
  shows "merge_bucket n gs = [merged_of n gs k]"
proof -
  have "group_key ` set gs = {k}"
    using assms by (cases gs) auto
  then have "set (merged_keys gs) = {k}"
    by (simp add: set_merged_keys)
  then have "merged_keys gs = [k]"
    using distinct_merged_keys [of gs] by (rule distinct_set_singleton)
  then show ?thesis by (simp add: merge_bucket_eq)
qed

section \<open>Group merging\<close>

text \<open>
  C4: merging is idempotent. For every mapping from group numbers to lists of groups,
  applying \<^verbatim>\<open>_merge_group_type\<close> twice gives the same mapping as applying it once.
\<close>

theorem merge_idempotent: "merge_group_type (merge_group_type groups) = merge_group_type groups"
  by (rule ext) (simp add: merge_group_type_def merge_bucket_idem split: option.splits)

lemma merged_of_tokens:
  assumes "k \<in> group_key ` set gs"
  shows "split CHR '','' (hour (merged_of n gs k)) =
         sort (concat (map (\<lambda>g. split CHR '','' (hour g)) (filter (\<lambda>g. group_key g = k) gs)))"
proof -
  have "split CHR '','' (hour (merged_of n gs k)) =
        sort (split CHR '','' (join CHR '','' (key_hours k gs)))"
    by (simp add: merged_of_def tokens_Group)
  also have "split CHR '','' (join CHR '','' (key_hours k gs)) =
             concat (map (split CHR '','') (key_hours k gs))"
    using key_hours_nonempty [OF assms] by (rule split_join_concat)
  also have "map (split CHR '','') (key_hours k gs) =
             map (\<lambda>g. split CHR '','' (hour g)) (filter (\<lambda>g. group_key g = k) gs)"
    by (simp add: key_hours_def comp_def)
  finally show ?thesis .
qed

lemma hour_Group_join:
  "hour (Group n wd rm len freq h) = join CHR '','' (split CHR '','' (hour (Group n wd rm len freq h)))"
  by (simp only: tokens_Group) (simp add: Group_def)

text \<open>
  C3, as amended: the hour field of a group is the comma-join of its tokens in sorted
  order, at construction and after a merge, and every token is kept as often as it
  occurs. At construction the tokens are those of the argument; after a merge they are
  the tokens of all merged groups with the same weekday, room and frequency.
\<close>

theorem hour_field_sorted_tokens:
  "split CHR '','' (hour (Group n wd rm len freq h)) = sort (split CHR '','' h) \<and>
   hour (Group n wd rm len freq h) = join CHR '','' (sort (split CHR '','' h)) \<and>
   (\<forall>g'\<in>set (merge_bucket m gs).
      split CHR '','' (hour g') =
        sort (concat (map (\<lambda>g. split CHR '','' (hour g))
                        (filter (\<lambda>g. group_key g = group_key g') gs))) \<and>
      hour g' = join CHR '','' (split CHR '','' (hour g')))"
proof (intro conjI ballI)
  show "split CHR '','' (hour (Group n wd rm len freq h)) = sort (split CHR '','' h)"
    by (rule tokens_Group)
  show "hour (Group n wd rm len freq h) = join CHR '','' (sort (split CHR '','' h))"
    by (simp add: Group_def)
next
  fix g' assume "g' \<in> set (merge_bucket m gs)"
  then obtain k where k: "k \<in> group_key ` set gs" and g': "g' = merged_of m gs k"
    by (auto simp: merge_bucket_eq set_merged_keys)
  show "split CHR '','' (hour g') =
        sort (concat (map (\<lambda>g. split CHR '','' (hour g))
                        (filter (\<lambda>g. group_key g = group_key g') gs)))"
    using merged_of_tokens [OF k] by (simp add: g' group_key_merged_of)
  show "hour g' = join CHR '','' (split CHR '','' (hour g'))"
    unfolding g' merged_of_def by (rule hour_Group_join)
qed

theorem hour_field_sorted_tokens_witness:
  "Group 2 ''LUN'' ''B-2325'' 2 ''B1'' ''0830,0930''
     \<in> set (merge_bucket 2 [Group 2 ''LUN'' ''B-2325'' 1 ''B1'' ''0930'',
                             Group 2 ''LUN'' ''B-2325'' 1 ''B1'' ''0830'']) \<and>
   split CHR '','' (hour (Group 2 ''LUN'' ''B-2325'' 2 ''B1'' ''0830,0930'')) = [''0830'', ''0930'']"
proof
  show mem: "Group 2 ''LUN'' ''B-2325'' 2 ''B1'' ''0830,0930''
     \<in> set (merge_bucket 2 [Group 2 ''LUN'' ''B-2325'' 1 ''B1'' ''0930'',
                             Group 2 ''LUN'' ''B-2325'' 1 ''B1'' ''0830''])"
    by code_simp
  have val: "sort (concat (map (\<lambda>g. split CHR '','' (hour g))
               (filter (\<lambda>g. group_key g = group_key (Group 2 ''LUN'' ''B-2325'' 2 ''B1'' ''0830,0930''))
                  [Group 2 ''LUN'' ''B-2325'' 1 ''B1'' ''0930'',
                   Group 2 ''LUN'' ''B-2325'' 1 ''B1'' ''0830'']))) = [''0830'', ''0930'']"
    by code_simp
  note hour_field_sorted_tokens [THEN conjunct2, THEN conjunct2, THEN bspec, OF mem, THEN conjunct1]
  then show "split CHR '','' (hour (Group 2 ''LUN'' ''B-2325'' 2 ''B1'' ''0830,0930'')) =
             [''0830'', ''0930'']"
    by (simp only: val)
qed

text \<open>
  C3 as stated fails: a token that occurs twice is stored twice, so the hour field is not
  the de-duplicated set of the tokens.
\<close>

theorem hour_field_duplicates_counterexample:
  "\<not> hour_field_spec (split CHR '','' ''0830,0830'')
       (hour (Group 2 ''LUN'' ''B-2325'' 1 ''B1'' ''0830,0830''))"
  by code_simp

text \<open>
  C5: in the bucket of one group number, the groups that share a weekday, room and
  frequency are collapsed into exactly one group, whose course length is the sum of their
  lengths; when all groups of the bucket share the triple, that group is the whole
  result. The total is the same for every order of the input rows.
\<close>

theorem merged_length_is_sum:
  assumes "k \<in> group_key ` set gs"
  shows "\<exists>g'. filter (\<lambda>g. group_key g = k) (merge_bucket n gs) = [g'] \<and>
           course_length g' = sum_list (map course_length (filter (\<lambda>g. group_key g = k) gs)) \<and>
           ((\<forall>g\<in>set gs. group_key g = k) \<longrightarrow> merge_bucket n gs = [g']) \<and>
           (\<forall>gs'. mset gs' = mset gs \<longrightarrow>
              (\<exists>g''. filter (\<lambda>g. group_key g = k) (merge_bucket n gs') = [g''] \<and>
                 course_length g'' = course_length g'))"
proof (intro exI conjI allI impI)
  show "filter (\<lambda>g. group_key g = k) (merge_bucket n gs) = [merged_of n gs k]"
    using assms by (rule merged_filter)
  show "course_length (merged_of n gs k) =
        sum_list (map course_length (filter (\<lambda>g. group_key g = k) gs))"
    by (simp add: course_length_merged_of key_lengths_def)
next
  assume "\<forall>g\<in>set gs. group_key g = k"
  moreover have "gs \<noteq> []" using assms by auto
  ultimately show "merge_bucket n gs = [merged_of n gs k]"
    by (rule merged_single [rotated])
next
  fix gs' assume eq: "mset gs' = mset gs"
  then have "set gs' = set gs" by (rule mset_eq_setD)
  then have "k \<in> group_key ` set gs'" using assms by simp
  then show "filter (\<lambda>g. group_key g = k) (merge_bucket n gs') = [merged_of n gs' k]"
    by (rule merged_filter)
  show "course_length (merged_of n gs' k) = course_length (merged_of n gs k)"
    by (simp only: course_length_merged_of key_lengths_mset [OF eq])
qed

theorem merged_length_is_sum_witness:
  "(''LUN'', ''B-2325'', ''B1'')
     \<in> group_key ` set [Group 2 ''LUN'' ''B-2325'' 1 ''B1'' ''0930'',
                         Group 2 ''MAR'' ''B-2325'' 1 ''B1'' ''0930'',
                         Group 2 ''LUN'' ''B-2325'' 1 ''B1'' ''0830''] \<and>
   (\<exists>g'. filter (\<lambda>g. group_key g = (''LUN'', ''B-2325'', ''B1''))
             (merge_bucket 2 [Group 2 ''LUN'' ''B-2325'' 1 ''B1'' ''0930'',
                              Group 2 ''MAR'' ''B-2325'' 1 ''B1'' ''0930'',
                              Group 2 ''LUN'' ''B-2325'' 1 ''B1'' ''0830'']) = [g'] \<and>
          course_length g' = 2)"
proof
  show mem: "(''LUN'', ''B-2325'', ''B1'')
     \<in> group_key ` set [Group 2 ''LUN'' ''B-2325'' 1 ''B1'' ''0930'',
                         Group 2 ''MAR'' ''B-2325'' 1 ''B1'' ''0930'',
                         Group 2 ''LUN'' ''B-2325'' 1 ''B1'' ''0830'']"
    by code_simp
  have total: "sum_list (map course_length (filter (\<lambda>g. group_key g = (''LUN'', ''B-2325'', ''B1''))
                 [Group 2 ''LUN'' ''B-2325'' 1 ''B1'' ''0930'',
                  Group 2 ''MAR'' ''B-2325'' 1 ''B1'' ''0930'',
                  Group 2 ''LUN'' ''B-2325'' 1 ''B1'' ''0830''])) = 2"
    by code_simp
  from merged_length_is_sum [OF mem, of 2]
  show "\<exists>g'. filter (\<lambda>g. group_key g = (''LUN'', ''B-2325'', ''B1''))
             (merge_bucket 2 [Group 2 ''LUN'' ''B-2325'' 1 ''B1'' ''0930'',
                              Group 2 ''MAR'' ''B-2325'' 1 ''B1'' ''0930'',
                              Group 2 ''LUN'' ''B-2325'' 1 ''B1'' ''0830'']) = [g'] \<and>
          course_length g' = 2"
    unfolding total
    apply -
    apply (erule exE)
    apply (erule conjE)+
    apply (rule exI)
    apply (rule conjI)
     apply assumption
    apply assumption
    done
qed

section \<open>Calendar expansion\<close>

lemma make_event_ok:
  "strptime_hm (hd (split CHR '','' (hour g))) = Some hm \<Longrightarrow>
   \<exists>ev. make_event strptime_hm c group_type g d = Inr ev \<and> dt_date (ev_begin ev) = d"
  by (cases hm) (simp add: make_event_def Let_def)

lemma day_body_ok:
  assumes "strptime_hm (hd (split CHR '','' (hour g))) = Some hm"
  shows "day_body strptime_hm am c group_type g d = Inr (day_events strptime_hm am c group_type g d)"
proof -
  obtain ev where "make_event strptime_hm c group_type g d = Inr ev"
    using assms make_event_ok [of strptime_hm g hm c group_type d] by blast
  then have "\<exists>evs. day_body strptime_hm am c group_type g d = Inr evs"
    by (simp add: day_body_def Let_def split: option.splits)
  then show ?thesis
    by (auto simp: day_events_def)
qed

lemma day_loop_ok:
  "strptime_hm (hd (split CHR '','' (hour g))) = Some hm \<Longrightarrow>
   day_loop strptime_hm am c group_type g s e =
     Inr (concat (map (day_events strptime_hm am c group_type g) [s..e]))"
proof (induction strptime_hm am c group_type g s e rule: day_loop.induct)
  case (1 strptime_hm am c group_type g s e)
  note body = day_body_ok [of strptime_hm g hm am c group_type s, OF "1.prems"]
  show ?case
  proof (cases "s \<le> e")
    case True
    have up: "[s..e] = s # [s + 1..e]"
      using True by (rule upto_rec1)
    have rest: "day_loop strptime_hm am c group_type g (s + 1) e =
                Inr (concat (map (day_events strptime_hm am c group_type g) [s + 1..e]))"
      using "1.IH" [OF True body "1.prems"] .
    show ?thesis
      by (subst day_loop.simps) (simp add: True body rest up)
  next
    case False
    then show ?thesis
      by (subst day_loop.simps) simp
  qed
qed

lemma day_events_date:
  "ev \<in> set (day_events strptime_hm am c group_type g d) \<Longrightarrow> dt_date (ev_begin ev) = d"
  by (auto simp: day_events_def day_body_def make_event_def Let_def
           split: option.splits if_splits sum.splits prod.splits)

lemma day_events_nonempty:
  assumes "strptime_hm (hd (split CHR '','' (hour g))) = Some hm"
    and "map_of am d = Some info"
  shows "day_events strptime_hm am c group_type g d \<noteq> [] \<longleftrightarrow>
         resolve_day_abbr d info = upper (week_day g) \<and>
         (lower (frequency g) = ''every_week'' \<or>
          (lower (frequency g) = ''b1'' \<and> week_type info = ''B1'') \<or>
          (lower (frequency g) = ''b2'' \<and> week_type info = ''B2''))"
proof -
  obtain ev where "make_event strptime_hm c group_type g d = Inr ev"
    using assms(1) make_event_ok [of strptime_hm g hm c group_type d] by blast
  then show ?thesis
    using assms(2) by (simp add: day_events_def day_body_def Let_def)
qed

lemma emitted_on_concat:
  "emitted_on (Inr (concat (map (day_events strptime_hm am c group_type g) [s..e]))) d \<longleftrightarrow>
   s \<le> d \<and> d \<le> e \<and> day_events strptime_hm am c group_type g d \<noteq> []"
proof -
  have "emitted_on (Inr (concat (map (day_events strptime_hm am c group_type g) [s..e]))) d \<longleftrightarrow>
        (\<exists>d'\<in>{s..e}. \<exists>ev\<in>set (day_events strptime_hm am c group_type g d'). dt_date (ev_begin ev) = d)"
    by (auto simp: emitted_on_def list_ex_iff)
  also have "\<dots> \<longleftrightarrow> (\<exists>d'\<in>{s..e}. d' = d \<and> day_events strptime_hm am c group_type g d' \<noteq> [])"
  proof (intro bex_cong refl)
    fix d'
    show "(\<exists>ev\<in>set (day_events strptime_hm am c group_type g d'). dt_date (ev_begin ev) = d) \<longleftrightarrow>
          (d' = d \<and> day_events strptime_hm am c group_type g d' \<noteq> [])"
      using day_events_date [of _ strptime_hm am c group_type g d']
      by (cases "day_events strptime_hm am c group_type g d'") auto
  qed
  also have "\<dots> \<longleftrightarrow> s \<le> d \<and> d \<le> e \<and> day_events strptime_hm am c group_type g d \<noteq> []"
    by auto
  finally show ?thesis .
qed

lemma emitted_iff_general:
  assumes "strptime_hm (hd (split CHR '','' (hour g))) = Some hm"
    and "map_of alternance_map d = Some info"
    and "semester_start_date \<le> d" and "d \<le> semester_end_date"
  shows "(\<exists>evs. day_loop strptime_hm alternance_map c group_type g semester_start_date
                  semester_end_date = Inr evs) \<and>
         (emitted_on (day_loop strptime_hm alternance_map c group_type g semester_start_date
                        semester_end_date) d \<longleftrightarrow>
            resolve_day_abbr d info = upper (week_day g) \<and>
            (lower (frequency g) = ''every_week'' \<or>
             (lower (frequency g) = ''b1'' \<and> week_type info = ''B1'') \<or>
             (lower (frequency g) = ''b2'' \<and> week_type info = ''B2'')))"
proof
  note loop = day_loop_ok [of strptime_hm g hm alternance_map c group_type semester_start_date
      semester_end_date, OF assms(1)]
  show "\<exists>evs. day_loop strptime_hm alternance_map c group_type g semester_start_date
                semester_end_date = Inr evs"
    using loop by blast
  show "emitted_on (day_loop strptime_hm alternance_map c group_type g semester_start_date
                      semester_end_date) d \<longleftrightarrow>
          resolve_day_abbr d info = upper (week_day g) \<and>
          (lower (frequency g) = ''every_week'' \<or>
           (lower (frequency g) = ''b1'' \<and> week_type info = ''B1'') \<or>
           (lower (frequency g) = ''b2'' \<and> week_type info = ''B2''))"
    unfolding loop emitted_on_concat
    using assms(3,4) day_events_nonempty [of strptime_hm g hm alternance_map d info c group_type,
        OF assms(1,2)]
    by simp
qed

lemma day_body_update:
  assumes "map_of am october_first = Some info"
  shows "day_body strptime_hm (AList.update october_first (info\<lparr>day_name := x\<rparr>) am) c group_type g d =
         day_body strptime_hm am c group_type g d"
  using assms by (simp add: day_body_def update_conv' resolve_day_abbr_def Let_def)

lemma day_loop_cong:
  assumes "\<And>d. day_body strptime_hm am' c group_type g d = day_body strptime_hm am c group_type g d"
  shows "day_loop strptime_hm am' c group_type g s e = day_loop strptime_hm am c group_type g s e"
  using assms
proof (induction strptime_hm am c group_type g s e rule: day_loop.induct)
  case (1 strptime_hm am c group_type g s e)
  show ?case
  proof (cases "s \<le> e")
    case True
    show ?thesis
    proof (cases "day_body strptime_hm am c group_type g s")
      case (Inl err)
      then show ?thesis
        by (simp add: day_loop.simps [of _ _ _ _ _ s e] "1.prems" True)
    next
      case (Inr evs)
      have "day_loop strptime_hm am' c group_type g (s + 1) e =
            day_loop strptime_hm am c group_type g (s + 1) e"
        using "1.IH" [OF True Inr "1.prems"] .
      then show ?thesis
        by (simp add: day_loop.simps [of _ _ _ _ _ s e] "1.prems" True Inr)
    qed
  next
    case False
    then show ?thesis
      by (simp add: day_loop.simps [of _ _ _ _ _ s e])
  qed
qed

lemma generate_update:
  assumes "map_of am october_first = Some info"
  shows "generate_ics_file strptime_hm cm sel (AList.update october_first (info\<lparr>day_name := x\<rparr>) am) =
         generate_ics_file strptime_hm cm sel am"
proof -
  let ?am' = "AList.update october_first (info\<lparr>day_name := x\<rparr>) am"
  have "october_first \<in> fst ` set am"
    using assms by (rule map_of_SomeD [THEN imageI [where f = fst], simplified])
  then have keys: "map fst ?am' = map fst am"
    by (simp add: update_keys)
  have loop: "day_loop strptime_hm ?am' c group_type g s e =
              day_loop strptime_hm am c group_type g s e" for c group_type g s e
    by (rule day_loop_cong) (rule day_body_update [OF assms])
  have num: "events_of_number strptime_hm ?am' s e c = events_of_number strptime_hm am s e c"
    for s e c
    by (intro ext) (simp add: events_of_number_def loop split: option.splits)
  have crs: "events_of_course strptime_hm cm ?am' s e = events_of_course strptime_hm cm am s e"
    for s e
    by (intro ext) (simp add: events_of_course_def num split: option.splits)
  show ?thesis
    by (simp add: generate_ics_file_def keys crs Let_def)
qed

text \<open>
  C7: on October 1st 2024 the day counts as \<^verbatim>\<open>LUN\<close>. An event is emitted for
  that day if and only if the upper-cased weekday token of the group is \<^verbatim>\<open>LUN\<close> and
  the frequency test passes, and the weekday name that the alternance map records for
  that day has no effect on the result of the expansion.
\<close>

theorem october_first_is_monday:
  assumes "map_of alternance_map october_first = Some info"
  shows "resolve_day_abbr october_first info = ''LUN'' \<and>
         (\<forall>x. generate_ics_file strptime_hm courses_manager courses_to_convert
                (AList.update october_first (info\<lparr>day_name := x\<rparr>) alternance_map) =
              generate_ics_file strptime_hm courses_manager courses_to_convert alternance_map) \<and>
         (strptime_hm (hd (split CHR '','' (hour g))) = Some hm \<and>
          semester_start_date \<le> october_first \<and> october_first \<le> semester_end_date \<longrightarrow>
            (emitted_on (day_loop strptime_hm alternance_map c group_type g semester_start_date
                           semester_end_date) october_first \<longleftrightarrow>
               ''LUN'' = upper (week_day g) \<and>
               (lower (frequency g) = ''every_week'' \<or>
                (lower (frequency g) = ''b1'' \<and> week_type info = ''B1'') \<or>
                (lower (frequency g) = ''b2'' \<and> week_type info = ''B2''))))"
proof (intro conjI allI impI)
  show lun: "resolve_day_abbr october_first info = ''LUN''"
    by (simp add: resolve_day_abbr_def Let_def)
  show "generate_ics_file strptime_hm courses_manager courses_to_convert
          (AList.update october_first (info\<lparr>day_name := x\<rparr>) alternance_map) =
        generate_ics_file strptime_hm courses_manager courses_to_convert alternance_map" for x
    using assms by (rule generate_update)
  assume run: "strptime_hm (hd (split CHR '','' (hour g))) = Some hm \<and>
          semester_start_date \<le> october_first \<and> october_first \<le> semester_end_date"
  then have parse: "strptime_hm (hd (split CHR '','' (hour g))) = Some hm"
    and lo: "semester_start_date \<le> october_first" and hi: "october_first \<le> semester_end_date"
    by simp_all
  show "emitted_on (day_loop strptime_hm alternance_map c group_type g semester_start_date
                        semester_end_date) october_first \<longleftrightarrow>
            ''LUN'' = upper (week_day g) \<and>
            (lower (frequency g) = ''every_week'' \<or>
             (lower (frequency g) = ''b1'' \<and> week_type info = ''B1'') \<or>
             (lower (frequency g) = ''b2'' \<and> week_type info = ''B2''))"
    using emitted_iff_general [where strptime_hm = strptime_hm and g = g and hm = hm,
        OF parse assms lo hi, of c group_type] lun
    by simp
qed

theorem october_first_is_monday_witness:
  "hhmm (hd (split CHR '','' (hour (Group 2 ''LUN'' ''B-2325'' 1 ''every_week'' ''0830'')))) =
     Some (8, 30) \<and>
   map_of [(739160 :: date, \<lparr>day_name = ''MARDI'', week_type = ''B1''\<rparr>)] october_first =
     Some \<lparr>day_name = ''MARDI'', week_type = ''B1''\<rparr> \<and>
   emitted_on
     (day_loop hhmm [(739160, \<lparr>day_name = ''MARDI'', week_type = ''B1''\<rparr>)]
        (Course ''LOG1810'' ''Elements de logiciel'' 3) ''c''
        (Group 2 ''LUN'' ''B-2325'' 1 ''every_week'' ''0830'') october_first october_first)
     october_first"
proof (intro conjI)
  show h1: "hhmm (hd (split CHR '','' (hour (Group 2 ''LUN'' ''B-2325'' 1 ''every_week'' ''0830'')))) =
            Some (8, 30)"
    by code_simp
  show h2: "map_of [(739160 :: date, \<lparr>day_name = ''MARDI'', week_type = ''B1''\<rparr>)] october_first =
            Some \<lparr>day_name = ''MARDI'', week_type = ''B1''\<rparr>"
    by (simp add: october_first_def)
  have cond: "''LUN'' = upper (week_day (Group 2 ''LUN'' ''B-2325'' 1 ''every_week'' ''0830'')) \<and>
              (lower (frequency (Group 2 ''LUN'' ''B-2325'' 1 ''every_week'' ''0830'')) = ''every_week'' \<or>
               (lower (frequency (Group 2 ''LUN'' ''B-2325'' 1 ''every_week'' ''0830'')) = ''b1'' \<and>
                week_type \<lparr>day_name = ''MARDI'', week_type = ''B1''\<rparr> = ''B1'') \<or>
               (lower (frequency (Group 2 ''LUN'' ''B-2325'' 1 ''every_week'' ''0830'')) = ''b2'' \<and>
                week_type \<lparr>day_name = ''MARDI'', week_type = ''B1''\<rparr> = ''B2''))"
    by code_simp
  show "emitted_on
     (day_loop hhmm [(739160, \<lparr>day_name = ''MARDI'', week_type = ''B1''\<rparr>)]
        (Course ''LOG1810'' ''Elements de logiciel'' 3) ''c''
        (Group 2 ''LUN'' ''B-2325'' 1 ''every_week'' ''0830'') october_first october_first)
     october_first"
    using october_first_is_monday [where strptime_hm = hhmm
        and g = "Group 2 ''LUN'' ''B-2325'' 1 ''every_week'' ''0830''"
        and semester_start_date = october_first and semester_end_date = october_first,
        OF h2, THEN conjunct2, THEN conjunct2, THEN mp, OF conjI [OF h1 conjI [OF order_refl order_refl]],
        THEN iffD2, OF cond] .
qed

section \<open>Selection of groups\<close>

lemma lower_char_c: "lower_char x = CHR ''c'' \<longleftrightarrow> x = CHR ''c'' \<or> x = CHR ''C''"
proof
  assume a: "lower_char x = CHR ''c''"
  show "x = CHR ''c'' \<or> x = CHR ''C''"
  proof (cases "65 \<le> (of_char x :: nat) \<and> (of_char x :: nat) \<le> 90")
    case True
    with a have "char_of (of_char x + 32 :: nat) = CHR ''c''"
      by (simp add: lower_char_def Let_def)
    then have "of_char (char_of (of_char x + 32 :: nat) :: char) = (of_char CHR ''c'' :: nat)"
      by simp
    then have "(of_char x + 32 :: nat) mod 256 = 99"
      by (simp add: of_char_of)
    with True have "(of_char x :: nat) = 67" by simp
    then have "char_of (of_char x :: nat) = (char_of (67 :: nat) :: char)" by (simp only:)
    moreover have "(char_of (67 :: nat) :: char) = CHR ''C''" by code_simp
    ultimately have "x = CHR ''C''" by (simp only: char_of_char)
    then show ?thesis by simp
  next
    case False
    with a show ?thesis by (auto simp: lower_char_def Let_def)
  qed
next
  assume x: "x = CHR ''c'' \<or> x = CHR ''C''"
  have "lower_char CHR ''c'' = CHR ''c''" and "lower_char CHR ''C'' = CHR ''c''"
    by code_simp+
  with x show "lower_char x = CHR ''c''"
    by auto
qed

lemma lower_char_l: "lower_char x = CHR ''l'' \<longleftrightarrow> x = CHR ''l'' \<or> x = CHR ''L''"
proof
  assume a: "lower_char x = CHR ''l''"
  show "x = CHR ''l'' \<or> x = CHR ''L''"
  proof (cases "65 \<le> (of_char x :: nat) \<and> (of_char x :: nat) \<le> 90")
    case True
    with a have "char_of (of_char x + 32 :: nat) = CHR ''l''"
      by (simp add: lower_char_def Let_def)
    then have "of_char (char_of (of_char x + 32 :: nat) :: char) = (of_char CHR ''l'' :: nat)"
      by simp
    then have "(of_char x + 32 :: nat) mod 256 = 108"
      by (simp add: of_char_of)
    with True have "(of_char x :: nat) = 76" by simp
    then have "char_of (of_char x :: nat) = (char_of (76 :: nat) :: char)" by (simp only:)
    moreover have "(char_of (76 :: nat) :: char) = CHR ''L''" by code_simp
    ultimately have "x = CHR ''L''" by (simp only: char_of_char)
    then show ?thesis by simp
  next
    case False
    with a show ?thesis by (auto simp: lower_char_def Let_def)
  qed
next
  assume x: "x = CHR ''l'' \<or> x = CHR ''L''"
  have "lower_char CHR ''l'' = CHR ''l''" and "lower_char CHR ''L'' = CHR ''l''"
    by code_simp+
  with x show "lower_char x = CHR ''l''"
    by auto
qed

lemma lower_eq_c: "lower gt = ''c'' \<longleftrightarrow> gt = ''c'' \<or> gt = ''C''"
  by (cases gt) (auto simp: lower_def lower_char_c)

lemma lower_eq_l: "lower gt = ''l'' \<longleftrightarrow> gt = ''l'' \<or> gt = ''L''"
  by (cases gt) (auto simp: lower_def lower_char_l)

lemma collect_Inr_elem:
  "collect f xs = Inr ys \<Longrightarrow> y \<in> set ys \<Longrightarrow> \<exists>x\<in>set xs. \<exists>zs. f x = Inr zs \<and> y \<in> set zs"
  by (induction xs arbitrary: ys) (auto split: sum.splits)

lemma collect_skip: "f x = Inr [] \<Longrightarrow> collect f (xs @ x # ys) = collect f (xs @ ys)"
  by (induction xs) (auto split: sum.splits)

lemma day_body_elem:
  "day_body strptime_hm am c group_type g d = Inr evs \<Longrightarrow> ev \<in> set evs \<Longrightarrow>
   make_event strptime_hm c group_type g d = Inr ev"
  by (auto simp: day_body_def Let_def split: option.splits if_splits sum.splits)

lemma day_loop_elem:
  "day_loop strptime_hm am c group_type g s e = Inr evs \<Longrightarrow> ev \<in> set evs \<Longrightarrow>
   \<exists>d. s \<le> d \<and> d \<le> e \<and> make_event strptime_hm c group_type g d = Inr ev"
proof (induction strptime_hm am c group_type g s e arbitrary: evs rule: day_loop.induct)
  case (1 strptime_hm am c group_type g s e)
  show ?case
  proof (cases "s \<le> e")
    case True
    from "1.prems"(1) True obtain today rest where
      body: "day_body strptime_hm am c group_type g s = Inr today" and
      loop: "day_loop strptime_hm am c group_type g (s + 1) e = Inr rest" and
      evs: "evs = today @ rest"
      by (subst (asm) day_loop.simps) (auto split: sum.splits)
    from "1.prems"(2) evs consider "ev \<in> set today" | "ev \<in> set rest"
      by auto
    then show ?thesis
    proof cases
      case 1
      then have "make_event strptime_hm c group_type g s = Inr ev"
        using body by (rule day_body_elem [rotated])
      with True show ?thesis by auto
    next
      case 2
      from "1.IH" [OF True body loop 2] obtain d where
        "s + 1 \<le> d" "d \<le> e" "make_event strptime_hm c group_type g d = Inr ev"
        by blast
      then show ?thesis by (intro exI [of _ d]) simp
    qed
  next
    case False
    with "1.prems" show ?thesis
      by (subst (asm) day_loop.simps) simp
  qed
qed

lemma make_event_name:
  "make_event strptime_hm c group_type g d = Inr ev \<Longrightarrow>
   ev_name ev = event_title c g (if group_type = ''c'' then ''COURS'' else ''LAB'')"
  by (auto simp: make_event_def event_title_def Let_def split: option.splits)

lemma events_of_number_upper_C:
  assumes "events_of_number strptime_hm am s e c ''C'' n = Inr evs" and "ev \<in> set evs"
  shows "\<exists>gs g. theo_groups c n = Some gs \<and> g \<in> set gs \<and> ev_name ev = event_title c g ''LAB''"
proof -
  have get: "get_specific_group c ''C'' n = theo_groups c n"
    by (simp add: get_specific_group_def lower_eq_c)
  from assms obtain gs where gs: "theo_groups c n = Some gs"
    and col: "collect (\<lambda>g. day_loop strptime_hm am c ''C'' g s e) gs = Inr evs"
    by (auto simp: events_of_number_def get split: option.splits if_splits)
  from collect_Inr_elem [OF col assms(2)] obtain g zs where
    g: "g \<in> set gs" and loop: "day_loop strptime_hm am c ''C'' g s e = Inr zs" and "ev \<in> set zs"
    by blast
  then obtain d where "make_event strptime_hm c ''C'' g d = Inr ev"
    using day_loop_elem by blast
  then have "ev_name ev = event_title c g ''LAB''"
    by (simp add: make_event_name)
  with gs g show ?thesis by blast
qed

text \<open>
  C10: \<^verbatim>\<open>get_specific_group\<close> gives the theoretical bucket for \<^verbatim>\<open>c\<close> and
  \<^verbatim>\<open>C\<close>, the lab bucket for \<^verbatim>\<open>l\<close> and \<^verbatim>\<open>L\<close>, and nothing for any other
  string. The label in the title of an event is \<^verbatim>\<open>COURS\<close> only when the key of the
  selection is exactly \<^verbatim>\<open>c\<close>; so every event of a selection keyed \<^verbatim>\<open>C\<close> comes
  from a group of the theoretical bucket and is titled \<^verbatim>\<open>LAB\<close>.
\<close>

theorem group_type_case_mismatch:
  "get_specific_group c ''c'' n = theo_groups c n \<and>
   get_specific_group c ''C'' n = theo_groups c n \<and>
   get_specific_group c ''l'' n = lab_groups c n \<and>
   get_specific_group c ''L'' n = lab_groups c n \<and>
   (group_type \<notin> {''c'', ''C'', ''l'', ''L''} \<longrightarrow> get_specific_group c group_type n = None) \<and>
   (make_event strptime_hm c group_type g d = Inr ev \<longrightarrow>
      ev_name ev = event_title c g (if group_type = ''c'' then ''COURS'' else ''LAB'')) \<and>
   (events_of_number strptime_hm am s e c ''C'' n = Inr evs \<longrightarrow>
      (\<forall>ev'\<in>set evs. \<exists>gs g'. theo_groups c n = Some gs \<and> g' \<in> set gs \<and>
          ev_name ev' = event_title c g' ''LAB''))"
proof (intro conjI impI ballI)
  show "get_specific_group c ''c'' n = theo_groups c n"
    and "get_specific_group c ''C'' n = theo_groups c n"
    by (simp_all add: get_specific_group_def lower_eq_c)
  show "get_specific_group c ''l'' n = lab_groups c n"
    and "get_specific_group c ''L'' n = lab_groups c n"
    by (simp_all add: get_specific_group_def lower_eq_c lower_eq_l)
next
  assume "group_type \<notin> {''c'', ''C'', ''l'', ''L''}"
  then show "get_specific_group c group_type n = None"
    by (simp add: get_specific_group_def lower_eq_c lower_eq_l)
next
  assume "make_event strptime_hm c group_type g d = Inr ev"
  then show "ev_name ev = event_title c g (if group_type = ''c'' then ''COURS'' else ''LAB'')"
    by (rule make_event_name)
next
  fix ev' assume "events_of_number strptime_hm am s e c ''C'' n = Inr evs" and "ev' \<in> set evs"
  then show "\<exists>gs g'. theo_groups c n = Some gs \<and> g' \<in> set gs \<and>
               ev_name ev' = event_title c g' ''LAB''"
    by (rule events_of_number_upper_C)
qed

theorem group_type_case_mismatch_witness:
  "''x'' \<notin> {''c'', ''C'', ''l'', ''L''} \<and>
   get_specific_group
     (add_group ''c'' (Group 2 ''LUN'' ''B-2325'' 1 ''every_week'' ''0830,0930'')
        (Course ''LOG1810'' ''Elements de logiciel'' 3)) ''x'' 2 = None \<and>
   events_of_number hhmm [(739131, \<lparr>day_name = ''LUNDI'', week_type = ''B1''\<rparr>)] 739131 739131
     (add_group ''c'' (Group 2 ''LUN'' ''B-2325'' 1 ''every_week'' ''0830,0930'')
        (Course ''LOG1810'' ''Elements de logiciel'' 3)) ''C'' 2 =
   Inr [\<lparr>ev_name = ''LOG1810 - Elements de logiciel - Groupe 2 (LAB)'',
         ev_begin = \<lparr>dt_date = 739131, dt_hour = 8, dt_minute = 30, dt_tz = Some ''America/Toronto''\<rparr>,
         ev_duration_hours = 2, ev_location = ''B-2325'',
         ev_alarms = [\<lparr>action = ''display'', trigger_minutes = - 30\<rparr>]\<rparr>] \<and>
   (\<exists>gs g'.
      theo_groups
        (add_group ''c'' (Group 2 ''LUN'' ''B-2325'' 1 ''every_week'' ''0830,0930'')
           (Course ''LOG1810'' ''Elements de logiciel'' 3)) 2 = Some gs \<and>
      g' \<in> set gs \<and>
      ''LOG1810 - Elements de logiciel - Groupe 2 (LAB)'' =
        event_title
          (add_group ''c'' (Group 2 ''LUN'' ''B-2325'' 1 ''every_week'' ''0830,0930'')
             (Course ''LOG1810'' ''Elements de logiciel'' 3)) g' ''LAB'')"
proof (intro conjI)
  let ?c = "add_group ''c'' (Group 2 ''LUN'' ''B-2325'' 1 ''every_week'' ''0830,0930'')
              (Course ''LOG1810'' ''Elements de logiciel'' 3)"
  let ?ev = "\<lparr>ev_name = ''LOG1810 - Elements de logiciel - Groupe 2 (LAB)'',
         ev_begin = \<lparr>dt_date = 739131, dt_hour = 8, dt_minute = 30, dt_tz = Some ''America/Toronto''\<rparr>,
         ev_duration_hours = 2, ev_location = ''B-2325'',
         ev_alarms = [\<lparr>action = ''display'', trigger_minutes = - 30\<rparr>]\<rparr>"
  note inst = group_type_case_mismatch [where c = "?c" and n = 2 and group_type = "''x''"
      and strptime_hm = hhmm and s = 739131 and e = 739131 and evs = "[?ev]"
      and am = "[(739131, \<lparr>day_name = ''LUNDI'', week_type = ''B1''\<rparr>)]"]
  show notin: "''x'' \<notin> {''c'', ''C'', ''l'', ''L''}"
    by simp
  show "get_specific_group ?c ''x'' 2 = None"
    using inst [THEN conjunct2, THEN conjunct2, THEN conjunct2, THEN conjunct2, THEN conjunct1,
        THEN mp, OF notin] .
  show run: "events_of_number hhmm [(739131, \<lparr>day_name = ''LUNDI'', week_type = ''B1''\<rparr>)]
               739131 739131 ?c ''C'' 2 = Inr [?ev]"
    by code_simp
  have mem: "?ev \<in> set [?ev]"
    by simp
  have "\<exists>gs g'. theo_groups ?c 2 = Some gs \<and> g' \<in> set gs \<and> ev_name ?ev = event_title ?c g' ''LAB''"
    using inst [THEN conjunct2, THEN conjunct2, THEN conjunct2, THEN conjunct2, THEN conjunct2,
        THEN conjunct2, THEN mp, OF run, THEN bspec, OF mem] .
  then show "\<exists>gs g'. theo_groups ?c 2 = Some gs \<and> g' \<in> set gs \<and>
      ''LOG1810 - Elements de logiciel - Groupe 2 (LAB)'' = event_title ?c g' ''LAB''"
    by (simp only: event.simps)
qed

lemma make_event_fields:
  assumes "make_event strptime_hm c group_type g d = Inr ev"
  shows "\<exists>h m. strptime_hm (hd (split CHR '','' (hour g))) = Some (h, m) \<and>
           ev_begin ev = \<lparr>dt_date = d, dt_hour = h, dt_minute = m, dt_tz = Some montreal_tz\<rparr> \<and>
           ev_duration_hours ev = length (split CHR '','' (hour g)) \<and>
           ev_name ev = event_title c g (if group_type = ''c'' then ''COURS'' else ''LAB'') \<and>
           ev_location ev = room g \<and>
           ev_alarms ev = [\<lparr>action = ''display'', trigger_minutes = - 30\<rparr>]"
  using assms
  by (auto simp: make_event_def event_title_def Let_def split: option.splits)

text \<open>
  C8: the fields of an emitted event. The start, the duration, the location and the alarm
  are as claimed for every event (\<open>make_event_fields\<close>). The label of the title is
  not: the selection \<^verbatim>\<open>{"LOG1810": {"C": [2]}}\<close> retrieves the lecture group, and
  its event is titled \<^verbatim>\<open>LAB\<close>, where the same selection keyed \<^verbatim>\<open>c\<close> gives
  \<^verbatim>\<open>COURS\<close>.
\<close>

theorem uppercase_selection_titled_lab:
  "generate_ics_file hhmm
     [''LOG1810'' \<mapsto> add_group ''c'' (Group 2 ''LUN'' ''B-2325'' 1 ''every_week'' ''0830,0930'')
        (Course ''LOG1810'' ''Elements de logiciel'' 3)]
     [(''LOG1810'', [(''C'', [2])])]
     [(739131, \<lparr>day_name = ''LUNDI'', week_type = ''B1''\<rparr>)] =
   Inr [\<lparr>ev_name = ''LOG1810 - Elements de logiciel - Groupe 2 (LAB)'',
         ev_begin = \<lparr>dt_date = 739131, dt_hour = 8, dt_minute = 30, dt_tz = Some ''America/Toronto''\<rparr>,
         ev_duration_hours = 2, ev_location = ''B-2325'',
         ev_alarms = [\<lparr>action = ''display'', trigger_minutes = - 30\<rparr>]\<rparr>] \<and>
   generate_ics_file hhmm
     [''LOG1810'' \<mapsto> add_group ''c'' (Group 2 ''LUN'' ''B-2325'' 1 ''every_week'' ''0830,0930'')
        (Course ''LOG1810'' ''Elements de logiciel'' 3)]
     [(''LOG1810'', [(''c'', [2])])]
     [(739131, \<lparr>day_name = ''LUNDI'', week_type = ''B1''\<rparr>)] =
   Inr [\<lparr>ev_name = ''LOG1810 - Elements de logiciel - Groupe 2 (COURS)'',
         ev_begin = \<lparr>dt_date = 739131, dt_hour = 8, dt_minute = 30, dt_tz = Some ''America/Toronto''\<rparr>,
         ev_duration_hours = 2, ev_location = ''B-2325'',
         ev_alarms = [\<lparr>action = ''display'', trigger_minutes = - 30\<rparr>]\<rparr>]"
  by code_simp

lemma sort_keys_nonempty: "am \<noteq> [] \<Longrightarrow> sort (map fst am) \<noteq> []"
proof
  assume "am \<noteq> []" and "sort (map fst am) = []"
  then have "length (sort (map fst am)) = 0" by simp
  then have "length am = 0" by (simp only: length_sort length_map)
  with \<open>am \<noteq> []\<close> show False by simp
qed

text \<open>
  C9: a selection entry that does not resolve contributes nothing and raises nothing. An
  entry whose course code is not in the registry gives no event, the expansion with the
  entry is the expansion without it, and alone on a non-empty alternance map it gives the
  empty calendar. A group number whose type is neither \<^verbatim>\<open>c\<close> nor \<^verbatim>\<open>l\<close> (in
  either case), or which is absent from the bucket of its type, gives no event, and the
  events of the list of numbers are those of the list without it.
\<close>

theorem unresolved_selection_skipped:
  "(get_course courses_manager code = None \<longrightarrow>
      events_of_course strptime_hm courses_manager am s e (code, sel) = Inr [] \<and>
      generate_ics_file strptime_hm courses_manager (before @ (code, sel) # after) am =
        generate_ics_file strptime_hm courses_manager (before @ after) am \<and>
      (am \<noteq> [] \<longrightarrow> generate_ics_file strptime_hm courses_manager [(code, sel)] am = Inr [])) \<and>
   ((lower group_type \<noteq> ''c'' \<and> lower group_type \<noteq> ''l'') \<or>
    (lower group_type = ''c'' \<and> theo_groups c n = None) \<or>
    (lower group_type = ''l'' \<and> lab_groups c n = None) \<longrightarrow>
      events_of_number strptime_hm am s e c group_type n = Inr [] \<and>
      collect (events_of_number strptime_hm am s e c group_type) (ns @ n # ns') =
        collect (events_of_number strptime_hm am s e c group_type) (ns @ ns'))"
proof (intro conjI impI)
  assume none: "get_course courses_manager code = None"
  show course: "events_of_course strptime_hm courses_manager am s e (code, sel) = Inr []" for s e
    using none by (simp add: events_of_course_def)
  show "generate_ics_file strptime_hm courses_manager (before @ (code, sel) # after) am =
        generate_ics_file strptime_hm courses_manager (before @ after) am"
    by (simp add: generate_ics_file_def Let_def collect_skip course)
  show "generate_ics_file strptime_hm courses_manager [(code, sel)] am = Inr []" if "am \<noteq> []"
    using sort_keys_nonempty [OF that] by (simp add: generate_ics_file_def Let_def course)
next
  assume "(lower group_type \<noteq> ''c'' \<and> lower group_type \<noteq> ''l'') \<or>
    (lower group_type = ''c'' \<and> theo_groups c n = None) \<or>
    (lower group_type = ''l'' \<and> lab_groups c n = None)"
  then have "get_specific_group c group_type n = None"
    by (auto simp: get_specific_group_def)
  then show num: "events_of_number strptime_hm am s e c group_type n = Inr []"
    by (simp add: events_of_number_def)
  show "collect (events_of_number strptime_hm am s e c group_type) (ns @ n # ns') =
        collect (events_of_number strptime_hm am s e c group_type) (ns @ ns')"
    using num by (rule collect_skip)
qed

theorem unresolved_selection_skipped_witness:
  "get_course Map.empty ''INF1015'' = None \<and>
   generate_ics_file hhmm Map.empty [(''INF1015'', [(''c'', [1])])]
     [(739131, \<lparr>day_name = ''LUNDI'', week_type = ''B1''\<rparr>)] = Inr [] \<and>
   lower ''c'' = ''c'' \<and>
   theo_groups
     (add_group ''c'' (Group 2 ''LUN'' ''B-2325'' 1 ''every_week'' ''0830,0930'')
        (Course ''LOG1810'' ''Elements de logiciel'' 3)) 9 = None \<and>
   events_of_number hhmm [(739131, \<lparr>day_name = ''LUNDI'', week_type = ''B1''\<rparr>)] 739131 739131
     (add_group ''c'' (Group 2 ''LUN'' ''B-2325'' 1 ''every_week'' ''0830,0930'')
        (Course ''LOG1810'' ''Elements de logiciel'' 3)) ''c'' 9 = Inr []"
proof (intro conjI)
  let ?c = "add_group ''c'' (Group 2 ''LUN'' ''B-2325'' 1 ''every_week'' ''0830,0930'')
              (Course ''LOG1810'' ''Elements de logiciel'' 3)"
  let ?am = "[(739131 :: date, \<lparr>day_name = ''LUNDI'', week_type = ''B1''\<rparr>)]"
  note inst = unresolved_selection_skipped [where courses_manager = Map.empty
      and code = "''INF1015''" and strptime_hm = hhmm and am = "?am" and s = 739131
      and e = 739131 and sel = "[(''c'', [1])]" and group_type = "''c''" and c = "?c" and n = 9]
  show none: "get_course Map.empty ''INF1015'' = None"
    by (simp add: get_course_def)
  have ne: "?am \<noteq> []"
    by simp
  show "generate_ics_file hhmm Map.empty [(''INF1015'', [(''c'', [1])])] ?am = Inr []"
    using inst [THEN conjunct1, THEN mp, OF none, THEN conjunct2, THEN conjunct2, THEN mp, OF ne] .
  show low: "lower ''c'' = ''c''"
    by code_simp
  show absent: "theo_groups ?c 9 = None"
    by code_simp
  from low absent have hyp: "(lower ''c'' \<noteq> ''c'' \<and> lower ''c'' \<noteq> ''l'') \<or>
      (lower ''c'' = ''c'' \<and> theo_groups ?c 9 = None) \<or>
      (lower ''c'' = ''l'' \<and> lab_groups ?c 9 = None)"
    by (intro disjI2 disjI1 conjI)
  show "events_of_number hhmm ?am 739131 739131 ?c ''c'' 9 = Inr []"
    using inst [THEN conjunct2, THEN mp, OF hyp, THEN conjunct1] .
qed

section \<open>Expansion of a selection\<close>

lemma collect_Inr_all:
  "collect f xs = Inr ys \<Longrightarrow> x \<in> set xs \<Longrightarrow> \<exists>zs. f x = Inr zs \<and> set zs \<subseteq> set ys"
proof (induction xs arbitrary: ys)
  case Nil
  then show ?case by simp
next
  case (Cons a xs)
  from Cons.prems(1) obtain today rest where
    a: "f a = Inr today" and r: "collect f xs = Inr rest" and ys: "ys = today @ rest"
    by (auto split: sum.splits)
  show ?case
  proof (cases "x = a")
    case True
    with a ys show ?thesis by auto
  next
    case False
    with Cons.prems(2) have "x \<in> set xs" by simp
    from Cons.IH [OF r this] obtain zs where "f x = Inr zs" "set zs \<subseteq> set rest"
      by blast
    with ys show ?thesis by auto
  qed
qed

lemma day_loop_Inr:
  "day_loop strptime_hm am c group_type g s e = Inr evs \<Longrightarrow>
   evs = concat (map (day_events strptime_hm am c group_type g) [s..e]) \<and>
   (\<forall>d. s \<le> d \<and> d \<le> e \<longrightarrow> (\<exists>x. day_body strptime_hm am c group_type g d = Inr x))"
proof (induction strptime_hm am c group_type g s e arbitrary: evs rule: day_loop.induct)
  case (1 strptime_hm am c group_type g s e)
  show ?case
  proof (cases "s \<le> e")
    case True
    from "1.prems" True obtain today rest where
      body: "day_body strptime_hm am c group_type g s = Inr today" and
      loop: "day_loop strptime_hm am c group_type g (s + 1) e = Inr rest" and
      evs: "evs = today @ rest"
      by (subst (asm) day_loop.simps) (auto split: sum.splits)
    note ih = "1.IH" [OF True body loop]
    have up: "[s..e] = s # [s + 1..e]"
      using True by (rule upto_rec1)
    have today: "day_events strptime_hm am c group_type g s = today"
      by (simp add: day_events_def body)
    have "evs = concat (map (day_events strptime_hm am c group_type g) [s..e])"
      using ih evs by (simp add: up today)
    moreover have "\<exists>x. day_body strptime_hm am c group_type g d = Inr x"
      if "s \<le> d \<and> d \<le> e" for d
    proof (cases "d = s")
      case True
      then show ?thesis using body by simp
    next
      case False
      with that have "s + 1 \<le> d \<and> d \<le> e" by simp
      with ih show ?thesis by blast
    qed
    ultimately show ?thesis by blast
  next
    case False
    with "1.prems" have "evs = []"
      by (subst (asm) day_loop.simps) simp
    with False show ?thesis by auto
  qed
qed

lemma day_events_nonempty_Inr:
  assumes "day_body strptime_hm am c group_type g d = Inr x"
    and "map_of am d = Some info"
  shows "day_events strptime_hm am c group_type g d \<noteq> [] \<longleftrightarrow>
         resolve_day_abbr d info = upper (week_day g) \<and>
         (lower (frequency g) = ''every_week'' \<or>
          (lower (frequency g) = ''b1'' \<and> week_type info = ''B1'') \<or>
          (lower (frequency g) = ''b2'' \<and> week_type info = ''B2''))"
  using assms
  by (auto simp: day_events_def day_body_def Let_def split: sum.splits if_splits)

lemma lower_frequency:
  "lower ''every_week'' = ''every_week''" "lower ''B1'' = ''b1''" "lower ''B2'' = ''b2''"
  by code_simp+

lemma frequency_test:
  assumes "frequency g \<in> {''every_week'', ''B1'', ''B2''}"
  shows "(lower (frequency g) = ''every_week'' \<or>
          (lower (frequency g) = ''b1'' \<and> wt = ''B1'') \<or>
          (lower (frequency g) = ''b2'' \<and> wt = ''B2'')) \<longleftrightarrow>
         (frequency g = ''every_week'' \<or>
          (frequency g = ''B1'' \<and> wt = ''B1'') \<or>
          (frequency g = ''B2'' \<and> wt = ''B2''))"
proof -
  from assms consider "frequency g = ''every_week''" | "frequency g = ''B1''" | "frequency g = ''B2''"
    by auto
  then show ?thesis
    by cases (simp_all add: lower_frequency)
qed

lemma sorted_hd_le: "sorted xs \<Longrightarrow> x \<in> set xs \<Longrightarrow> hd xs \<le> x"
  by (cases xs) auto

lemma sorted_le_last: "sorted xs \<Longrightarrow> x \<in> set xs \<Longrightarrow> x \<le> last xs"
  by (induction xs) (auto split: if_splits)

lemma key_in_range:
  assumes "map_of am d = Some info"
  shows "hd (sort (map fst am)) \<le> d \<and> d \<le> last (sort (map fst am))"
proof -
  from assms have "d \<in> set (sort (map fst am))"
    by (auto dest: map_of_SomeD intro: rev_image_eqI)
  then show ?thesis
    using sorted_hd_le [of "sort (map fst am)" d] sorted_le_last [of "sort (map fst am)" d]
    by simp
qed

lemma generate_selected:
  assumes "generate_ics_file strptime_hm cm sel am = Inr evs"
    and "selected cm sel c group_type g"
  shows "\<exists>evs_g. day_loop strptime_hm am c group_type g (hd (sort (map fst am)))
                   (last (sort (map fst am))) = Inr evs_g \<and> set evs_g \<subseteq> set evs"
proof -
  let ?s = "hd (sort (map fst am))" and ?e = "last (sort (map fst am))"
  from assms(1) have all: "collect (events_of_course strptime_hm cm am ?s ?e) sel = Inr evs"
    by (simp add: generate_ics_file_def Let_def split: if_splits)
  from assms(2) obtain entry s n gs where
    entry: "entry \<in> set sel" "get_course cm (fst entry) = Some c" and
    s: "s \<in> set (snd entry)" "fst s = group_type" and
    n: "n \<in> set (snd s)" and gs: "get_specific_group c group_type n = Some gs" "g \<in> set gs"
    by (auto simp: selected_def)
  from collect_Inr_all [OF all entry(1)] obtain z1 where
    z1: "events_of_course strptime_hm cm am ?s ?e entry = Inr z1" "set z1 \<subseteq> set evs"
    by blast
  from z1(1) entry(2) have
    "collect (\<lambda>sel. collect (events_of_number strptime_hm am ?s ?e c (fst sel)) (snd sel))
       (snd entry) = Inr z1"
    by (simp add: events_of_course_def)
  from collect_Inr_all [OF this s(1)] s(2) obtain z2 where
    z2: "collect (events_of_number strptime_hm am ?s ?e c group_type) (snd s) = Inr z2"
      "set z2 \<subseteq> set z1"
    by auto
  from collect_Inr_all [OF z2(1) n] obtain z3 where
    z3: "events_of_number strptime_hm am ?s ?e c group_type n = Inr z3" "set z3 \<subseteq> set z2"
    by blast
  from gs(2) have "gs \<noteq> []" by auto
  with z3(1) gs(1) have
    "collect (\<lambda>g. day_loop strptime_hm am c group_type g ?s ?e) gs = Inr z3"
    by (simp add: events_of_number_def)
  from collect_Inr_all [OF this gs(2)] obtain z4 where
    "day_loop strptime_hm am c group_type g ?s ?e = Inr z4" "set z4 \<subseteq> set z3"
    by blast
  with z1(2) z2(2) z3(2) show ?thesis by blast
qed

lemma collect_returns:
  "(\<And>x. x \<in> set xs \<Longrightarrow> \<exists>ys. f x = Inr ys) \<Longrightarrow> \<exists>zs. collect f xs = Inr zs"
proof (induction xs)
  case Nil
  then show ?case by simp
next
  case (Cons a xs)
  from Cons.prems [of a] obtain ys where "f a = Inr ys" by auto
  moreover from Cons.IH Cons.prems obtain zs where "collect f xs = Inr zs" by auto
  ultimately show ?case by simp
qed

text \<open>
  The expansion raises no exception when the alternance map is not empty and the first
  hour token of every selected group parses.
\<close>

lemma generate_returns:
  assumes "am \<noteq> []"
    and parse: "\<And>c group_type g. selected cm sel c group_type g \<Longrightarrow>
                 strptime_hm (hd (split CHR '','' (hour g))) \<noteq> None"
  shows "\<exists>evs. generate_ics_file strptime_hm cm sel am = Inr evs"
proof -
  let ?s = "hd (sort (map fst am))" and ?e = "last (sort (map fst am))"
  have "\<exists>ys. events_of_course strptime_hm cm am ?s ?e entry = Inr ys" if entry: "entry \<in> set sel"
    for entry
  proof (cases "get_course cm (fst entry)")
    case None
    then show ?thesis by (simp add: events_of_course_def)
  next
    case (Some c)
    have "\<exists>ys. collect (events_of_number strptime_hm am ?s ?e c (fst s)) (snd s) = Inr ys"
      if s: "s \<in> set (snd entry)" for s
    proof (rule collect_returns)
      fix n assume n: "n \<in> set (snd s)"
      show "\<exists>ys. events_of_number strptime_hm am ?s ?e c (fst s) n = Inr ys"
      proof (cases "get_specific_group c (fst s) n")
        case None
        then show ?thesis by (simp add: events_of_number_def)
      next
        case (Some gs)
        have "\<exists>ys. collect (\<lambda>g. day_loop strptime_hm am c (fst s) g ?s ?e) gs = Inr ys"
        proof (rule collect_returns)
          fix g assume g: "g \<in> set gs"
          have "selected cm sel c (fst s) g"
            unfolding selected_def using entry \<open>get_course cm (fst entry) = Some c\<close> s n Some g
            by blast
          then obtain hm where "strptime_hm (hd (split CHR '','' (hour g))) = Some hm"
            using parse by blast
          then show "\<exists>ys. day_loop strptime_hm am c (fst s) g ?s ?e = Inr ys"
            using day_loop_ok [of strptime_hm g hm am c "fst s" ?s ?e] by simp
        qed
        with Some show ?thesis by (simp add: events_of_number_def)
      qed
    qed
    then have "\<exists>zs. collect (\<lambda>s. collect (events_of_number strptime_hm am ?s ?e c (fst s)) (snd s))
                       (snd entry) = Inr zs"
      by (rule collect_returns)
    with Some show ?thesis by (simp add: events_of_course_def)
  qed
  then have "\<exists>zs. collect (events_of_course strptime_hm cm am ?s ?e) sel = Inr zs"
    by (rule collect_returns)
  with sort_keys_nonempty [OF assms(1)] show ?thesis
    by (simp add: generate_ics_file_def Let_def)
qed

text \<open>
  C1, as amended: let the calendar expansion \<^verbatim>\<open>generate_ics_file\<close> end without an
  exception, on a calendar that ends before 9999-12-31 and for selected groups whose
  weekday tokens and frequencies are ASCII. For every selected group whose frequency is
  one of \<^verbatim>\<open>every_week\<close>, \<^verbatim>\<open>B1\<close>, \<^verbatim>\<open>B2\<close>, the loop over the days of
  the semester returns the events of the group, they are events of the calendar, and for
  every day that has an alternance entry there is an event of the group on that day if
  and only if the abbreviation of the day equals the upper-cased weekday token and the
  frequency test passes:
  \<^verbatim>\<open>every_week\<close> always, \<^verbatim>\<open>B1\<close> only in a week of type \<^verbatim>\<open>B1\<close>,
  \<^verbatim>\<open>B2\<close> only in a week of type \<^verbatim>\<open>B2\<close>.
\<close>

theorem expansion_emits_iff:
  assumes "generate_ics_file strptime_hm courses_manager courses_to_convert alternance_map = Inr evs"
    and "selected courses_manager courses_to_convert c group_type g"
    and "map_of alternance_map d = Some info"
    and "\<forall>c' group_type' g'. selected courses_manager courses_to_convert c' group_type' g' \<longrightarrow>
           is_ascii (week_day g') \<and> is_ascii (frequency g')"
    and "frequency g \<in> {''every_week'', ''B1'', ''B2''}"
    and "last (sort (map fst alternance_map)) < date_max"
  shows "\<exists>evs_g.
           day_loop strptime_hm alternance_map c group_type g
             (hd (sort (map fst alternance_map))) (last (sort (map fst alternance_map))) =
             Inr evs_g \<and>
           set evs_g \<subseteq> set evs \<and>
           (emitted_on (Inr evs_g) d \<longleftrightarrow>
              resolve_day_abbr d info = upper (week_day g) \<and>
              (frequency g = ''every_week'' \<or>
               (frequency g = ''B1'' \<and> week_type info = ''B1'') \<or>
               (frequency g = ''B2'' \<and> week_type info = ''B2'')))"
proof -
  let ?s = "hd (sort (map fst alternance_map))" and ?e = "last (sort (map fst alternance_map))"
  from generate_selected [OF assms(1,2)] obtain evs_g where
    loop: "day_loop strptime_hm alternance_map c group_type g ?s ?e = Inr evs_g" and
    sub: "set evs_g \<subseteq> set evs"
    by blast
  from day_loop_Inr [OF loop] have
    evs_g: "evs_g = concat (map (day_events strptime_hm alternance_map c group_type g) [?s..?e])"
    and bodies: "\<And>d. ?s \<le> d \<and> d \<le> ?e \<Longrightarrow>
                   \<exists>x. day_body strptime_hm alternance_map c group_type g d = Inr x"
    by blast+
  note range = key_in_range [OF assms(3)]
  from bodies [OF range] obtain x where
    body: "day_body strptime_hm alternance_map c group_type g d = Inr x"
    by blast
  have "emitted_on (Inr evs_g) d \<longleftrightarrow>
        day_events strptime_hm alternance_map c group_type g d \<noteq> []"
    unfolding evs_g emitted_on_concat using range by simp
  also have "\<dots> \<longleftrightarrow>
        resolve_day_abbr d info = upper (week_day g) \<and>
        (lower (frequency g) = ''every_week'' \<or>
         (lower (frequency g) = ''b1'' \<and> week_type info = ''B1'') \<or>
         (lower (frequency g) = ''b2'' \<and> week_type info = ''B2''))"
    using body assms(3) by (rule day_events_nonempty_Inr)
  also have "\<dots> \<longleftrightarrow>
        resolve_day_abbr d info = upper (week_day g) \<and>
        (frequency g = ''every_week'' \<or>
         (frequency g = ''B1'' \<and> week_type info = ''B1'') \<or>
         (frequency g = ''B2'' \<and> week_type info = ''B2''))"
    by (simp only: frequency_test [OF assms(5)])
  finally show ?thesis
    using loop sub by blast
qed

theorem expansion_emits_iff_witness:
  "generate_ics_file hhmm
     [''LOG1810'' \<mapsto> add_group ''c'' (Group 2 ''LUN'' ''B-2325'' 1 ''B1'' ''0830,0930'')
        (Course ''LOG1810'' ''Elements de logiciel'' 3)]
     [(''LOG1810'', [(''c'', [2])])]
     [(739131, \<lparr>day_name = ''LUNDI'', week_type = ''B1''\<rparr>)] =
   Inr [\<lparr>ev_name = ''LOG1810 - Elements de logiciel - Groupe 2 (COURS)'',
         ev_begin = \<lparr>dt_date = 739131, dt_hour = 8, dt_minute = 30, dt_tz = Some ''America/Toronto''\<rparr>,
         ev_duration_hours = 2, ev_location = ''B-2325'',
         ev_alarms = [\<lparr>action = ''display'', trigger_minutes = - 30\<rparr>]\<rparr>] \<and>
   selected
     [''LOG1810'' \<mapsto> add_group ''c'' (Group 2 ''LUN'' ''B-2325'' 1 ''B1'' ''0830,0930'')
        (Course ''LOG1810'' ''Elements de logiciel'' 3)]
     [(''LOG1810'', [(''c'', [2])])]
     (add_group ''c'' (Group 2 ''LUN'' ''B-2325'' 1 ''B1'' ''0830,0930'')
        (Course ''LOG1810'' ''Elements de logiciel'' 3))
     ''c'' (Group 2 ''LUN'' ''B-2325'' 1 ''B1'' ''0830,0930'') \<and>
   is_ascii (week_day (Group 2 ''LUN'' ''B-2325'' 1 ''B1'' ''0830,0930'')) \<and>
   is_ascii (frequency (Group 2 ''LUN'' ''B-2325'' 1 ''B1'' ''0830,0930'')) \<and>
   frequency (Group 2 ''LUN'' ''B-2325'' 1 ''B1'' ''0830,0930'') \<in> {''every_week'', ''B1'', ''B2''} \<and>
   last (sort (map fst [(739131 :: date, \<lparr>day_name = ''LUNDI'', week_type = ''B1''\<rparr>)])) < date_max \<and>
   (\<exists>evs_g.
      day_loop hhmm [(739131, \<lparr>day_name = ''LUNDI'', week_type = ''B1''\<rparr>)]
        (add_group ''c'' (Group 2 ''LUN'' ''B-2325'' 1 ''B1'' ''0830,0930'')
           (Course ''LOG1810'' ''Elements de logiciel'' 3))
        ''c'' (Group 2 ''LUN'' ''B-2325'' 1 ''B1'' ''0830,0930'')
        (hd (sort (map fst [(739131 :: date, \<lparr>day_name = ''LUNDI'', week_type = ''B1''\<rparr>)])))
        (last (sort (map fst [(739131 :: date, \<lparr>day_name = ''LUNDI'', week_type = ''B1''\<rparr>)]))) =
        Inr evs_g \<and>
      emitted_on (Inr evs_g) 739131)"
proof (intro conjI)
  let ?g = "Group 2 ''LUN'' ''B-2325'' 1 ''B1'' ''0830,0930''"
  let ?c = "add_group ''c'' ?g (Course ''LOG1810'' ''Elements de logiciel'' 3)"
  let ?am = "[(739131 :: date, \<lparr>day_name = ''LUNDI'', week_type = ''B1''\<rparr>)]"
  let ?ev = "\<lparr>ev_name = ''LOG1810 - Elements de logiciel - Groupe 2 (COURS)'',
         ev_begin = \<lparr>dt_date = 739131, dt_hour = 8, dt_minute = 30, dt_tz = Some ''America/Toronto''\<rparr>,
         ev_duration_hours = 2, ev_location = ''B-2325'',
         ev_alarms = [\<lparr>action = ''display'', trigger_minutes = - 30\<rparr>]\<rparr>"
  show run: "generate_ics_file hhmm [''LOG1810'' \<mapsto> ?c] [(''LOG1810'', [(''c'', [2])])] ?am =
             Inr [?ev]"
    by code_simp
  have bucket: "get_specific_group ?c ''c'' 2 = Some [?g]"
    by code_simp
  show sel: "selected [''LOG1810'' \<mapsto> ?c] [(''LOG1810'', [(''c'', [2])])] ?c ''c'' ?g"
    by (simp add: selected_def get_course_def bucket)
  have only: "g' = ?g"
    if "selected [''LOG1810'' \<mapsto> ?c] [(''LOG1810'', [(''c'', [2])])] c' group_type' g'"
    for c' group_type' g'
    using that by (auto simp: selected_def get_course_def bucket)
  show ascii_wd: "is_ascii (week_day ?g)" and ascii_fr: "is_ascii (frequency ?g)"
    by code_simp+
  note ascii_g = conjI [OF ascii_wd ascii_fr]
  have asc_rule: "is_ascii (week_day g') \<and> is_ascii (frequency g')"
    if "selected [''LOG1810'' \<mapsto> ?c] [(''LOG1810'', [(''c'', [2])])] c' group_type' g'"
    for c' group_type' g'
    using only [OF that] ascii_g by simp
  then have asc: "\<forall>c' group_type' g'.
      selected [''LOG1810'' \<mapsto> ?c] [(''LOG1810'', [(''c'', [2])])] c' group_type' g' \<longrightarrow>
      is_ascii (week_day g') \<and> is_ascii (frequency g')"
    by blast
  show freq: "frequency ?g \<in> {''every_week'', ''B1'', ''B2''}"
    by code_simp
  show last: "last (sort (map fst ?am)) < date_max"
    by code_simp
  have entry: "map_of ?am 739131 = Some \<lparr>day_name = ''LUNDI'', week_type = ''B1''\<rparr>"
    by simp
  have cond: "resolve_day_abbr 739131 \<lparr>day_name = ''LUNDI'', week_type = ''B1''\<rparr> =
                upper (week_day ?g) \<and>
              (frequency ?g = ''every_week'' \<or>
               (frequency ?g = ''B1'' \<and> week_type \<lparr>day_name = ''LUNDI'', week_type = ''B1''\<rparr> = ''B1'') \<or>
               (frequency ?g = ''B2'' \<and> week_type \<lparr>day_name = ''LUNDI'', week_type = ''B1''\<rparr> = ''B2''))"
    by code_simp
  from expansion_emits_iff [where strptime_hm = hhmm, OF run sel entry asc freq last]
  obtain evs_g where
    loop: "day_loop hhmm ?am ?c ''c'' ?g (hd (sort (map fst ?am))) (last (sort (map fst ?am))) =
           Inr evs_g"
    and iff: "emitted_on (Inr evs_g) 739131 \<longleftrightarrow>
       resolve_day_abbr 739131 \<lparr>day_name = ''LUNDI'', week_type = ''B1''\<rparr> = upper (week_day ?g) \<and>
       (frequency ?g = ''every_week'' \<or>
        (frequency ?g = ''B1'' \<and> week_type \<lparr>day_name = ''LUNDI'', week_type = ''B1''\<rparr> = ''B1'') \<or>
        (frequency ?g = ''B2'' \<and> week_type \<lparr>day_name = ''LUNDI'', week_type = ''B1''\<rparr> = ''B2''))"
    by (elim exE conjE)
  from iff cond have "emitted_on (Inr evs_g) 739131"
    by (rule iffD2)
  with loop show "\<exists>evs_g.
      day_loop hhmm ?am ?c ''c'' ?g (hd (sort (map fst ?am))) (last (sort (map fst ?am))) =
        Inr evs_g \<and>
      emitted_on (Inr evs_g) 739131"
    by (intro exI conjI)
qed

text \<open>
  C1 as stated fails: the only selected group has the weekday token \<^verbatim>\<open>lun\<close>, and
  the expansion emits an event on a Monday, although the abbreviation \<^verbatim>\<open>LUN\<close> is
  not equal to the token.
\<close>

theorem expansion_token_counterexample:
  "get_specific_group
     (add_group ''c'' (Group 2 ''lun'' ''B-2325'' 1 ''every_week'' ''0830,0930'')
        (Course ''LOG1810'' ''Elements de logiciel'' 3)) ''c'' 2 =
     Some [Group 2 ''lun'' ''B-2325'' 1 ''every_week'' ''0830,0930''] \<and>
   \<not> (emitted_on
         (generate_ics_file hhmm
            [''LOG1810'' \<mapsto> add_group ''c'' (Group 2 ''lun'' ''B-2325'' 1 ''every_week'' ''0830,0930'')
               (Course ''LOG1810'' ''Elements de logiciel'' 3)]
            [(''LOG1810'', [(''c'', [2])])]
            [(739131, \<lparr>day_name = ''LUNDI'', week_type = ''B1''\<rparr>)])
         739131 \<longleftrightarrow>
       emits_spec (Group 2 ''lun'' ''B-2325'' 1 ''every_week'' ''0830,0930'') 739131
         \<lparr>day_name = ''LUNDI'', week_type = ''B1''\<rparr>)"
  by code_simp

section \<open>Reading the timetable\<close>

lemma read_row_well_formed:
  assumes "well_formed_row py_int py_float row n credit"
  shows "read_row py_int py_float courses row =
         Inr (courses(row ! 1 \<mapsto>
                add_group (lower (row ! 7)) (row_group n row) (row_course courses credit row)))"
proof -
  from assms obtain f where
    f: "py_float (replace CHR '','' CHR ''.'' (row ! 3)) = Some f" "int_of_float f = Inr credit"
    by (auto simp: well_formed_row_def split: option.splits)
  from assms have len: "length row = 15" and n: "py_int (row ! 2) = Some n"
    and ne: "row ! 1 \<noteq> []" "row ! 2 \<noteq> []" "row ! 3 \<noteq> []" "row ! 6 \<noteq> []" "row ! 7 \<noteq> []"
      "row ! 10 \<noteq> []" "row ! 11 \<noteq> []" "row ! 13 \<noteq> []" "row ! 14 \<noteq> []"
    by (simp_all add: well_formed_row_def)
  from ne(1) have ne1: "row ! Suc 0 \<noteq> []"
    by simp
  show ?thesis
    by (simp add: read_row_def Let_def len n ne ne1 f row_group_def row_course_def
             split: option.splits)
qed

lemma well_formed_column_10:
  assumes "well_formed_row py_int py_float row n credit" and "x \<noteq> []"
  shows "well_formed_row py_int py_float (row[10 := x]) n credit"
  using assms by (simp add: well_formed_row_def)

lemma row_group_key_in_bucket:
  "\<exists>gs g'. merge_group_type (bucket_append groups g) (number g) = Some gs \<and>
           g' \<in> set gs \<and> group_key g' = group_key g"
proof -
  let ?old = "case groups (number g) of None \<Rightarrow> [] | Some gs \<Rightarrow> gs"
  let ?gs = "merge_bucket (number g) (?old @ [g])"
  have bucket: "merge_group_type (bucket_append groups g) (number g) = Some ?gs"
    by (simp add: merge_group_type_def bucket_append_def)
  have "group_key g \<in> set (merged_keys (?old @ [g]))"
    by (simp add: set_merged_keys)
  then have "merged_of (number g) (?old @ [g]) (group_key g) \<in> set ?gs"
    by (simp add: merge_bucket_eq)
  with bucket show ?thesis
    using group_key_merged_of by blast
qed

lemma number_row_group: "number (row_group n row) = n"
  by (simp add: row_group_def Group_def)

text \<open>
  C2, as amended: for a well-formed row the period type, column 7, decides the bucket.
  With \<^verbatim>\<open>c\<close> or \<^verbatim>\<open>C\<close> there the new group is appended to the theoretical
  bucket of its number and the buckets are merged again, so that the bucket holds a group
  with the weekday, room and frequency of the row; with \<^verbatim>\<open>l\<close> or \<^verbatim>\<open>L\<close> the same
  holds for the lab bucket. Column 10 is only required to be non-empty: replacing it by
  any other non-empty string leaves the result unchanged.
\<close>

theorem routed_by_period_type:
  assumes "well_formed_row py_int py_float row n credit"
  shows "\<exists>c'. read_row py_int py_float courses row = Inr (courses(row ! 1 \<mapsto> c')) \<and>
           (lower (row ! 7) = ''c'' \<longrightarrow>
              theo_groups c' =
                merge_group_type
                  (bucket_append (theo_groups (row_course courses credit row)) (row_group n row)) \<and>
              lab_groups c' = merge_group_type (lab_groups (row_course courses credit row)) \<and>
              (\<exists>gs g'. theo_groups c' n = Some gs \<and> g' \<in> set gs \<and>
                 group_key g' = group_key (row_group n row))) \<and>
           (lower (row ! 7) = ''l'' \<longrightarrow>
              lab_groups c' =
                merge_group_type
                  (bucket_append (lab_groups (row_course courses credit row)) (row_group n row)) \<and>
              theo_groups c' = merge_group_type (theo_groups (row_course courses credit row)) \<and>
              (\<exists>gs g'. lab_groups c' n = Some gs \<and> g' \<in> set gs \<and>
                 group_key g' = group_key (row_group n row))) \<and>
           (\<forall>x. x \<noteq> [] \<longrightarrow>
              read_row py_int py_float courses (row[10 := x]) =
              read_row py_int py_float courses row)"
proof (rule exI [of _ "add_group (lower (row ! 7)) (row_group n row)
    (row_course courses credit row)"], intro conjI impI allI)
  let ?g = "row_group n row"
  let ?c0 = "row_course courses credit row"
  let ?c' = "add_group (lower (row ! 7)) ?g ?c0"
  show "read_row py_int py_float courses row = Inr (courses(row ! 1 \<mapsto> ?c'))"
    using assms by (rule read_row_well_formed)
  {
    assume c: "lower (row ! 7) = ''c''"
    show t: "theo_groups ?c' = merge_group_type (bucket_append (theo_groups ?c0) ?g)"
      by (simp add: add_group_def merge_groups_def c lower_eq_c lower_eq_l)
    show "lab_groups ?c' = merge_group_type (lab_groups ?c0)"
      by (simp add: add_group_def merge_groups_def c lower_eq_c lower_eq_l)
    show "\<exists>gs g'. theo_groups ?c' n = Some gs \<and> g' \<in> set gs \<and> group_key g' = group_key ?g"
      using row_group_key_in_bucket [of "theo_groups ?c0" ?g]
      by (simp only: t number_row_group)
  }
  {
    assume l: "lower (row ! 7) = ''l''"
    show t: "lab_groups ?c' = merge_group_type (bucket_append (lab_groups ?c0) ?g)"
      by (simp add: add_group_def merge_groups_def l lower_eq_c lower_eq_l)
    show "theo_groups ?c' = merge_group_type (theo_groups ?c0)"
      by (simp add: add_group_def merge_groups_def l lower_eq_c lower_eq_l)
    show "\<exists>gs g'. lab_groups ?c' n = Some gs \<and> g' \<in> set gs \<and> group_key g' = group_key ?g"
      using row_group_key_in_bucket [of "lab_groups ?c0" ?g]
      by (simp only: t number_row_group)
  }
  {
    fix x :: string assume x: "x \<noteq> []"
    have len: "length row = 15"
      using assms by (simp add: well_formed_row_def)
    have same: "row_group n (row[10 := x]) = row_group n row"
      "row_course courses credit (row[10 := x]) = row_course courses credit row"
      "row[10 := x] ! 1 = row ! 1" "row[10 := x] ! 7 = row ! 7"
      by (simp_all add: row_group_def row_course_def split: option.splits)
    show "read_row py_int py_float courses (row[10 := x]) = read_row py_int py_float courses row"
      by (simp only: read_row_well_formed [OF well_formed_column_10 [OF assms x]]
            read_row_well_formed [OF assms] same)
  }
qed

theorem routed_by_period_type_witness:
  "well_formed_row example_int example_float (scenario_row ''C'' ''L'') 2 3 \<and>
   read_row example_int example_float Map.empty (scenario_row ''C'' ''C'') =
   read_row example_int example_float Map.empty (scenario_row ''C'' ''L'')"
proof
  show wf: "well_formed_row example_int example_float (scenario_row ''C'' ''L'') 2 3"
    by code_simp
  have upd: "(scenario_row ''C'' ''L'')[10 := ''C''] = scenario_row ''C'' ''C''"
    by (simp add: scenario_row_def)
  have ne: "''C'' \<noteq> []"
    by simp
  from routed_by_period_type [OF wf, of Map.empty] obtain c' where
    "\<forall>x. x \<noteq> [] \<longrightarrow>
       read_row example_int example_float Map.empty ((scenario_row ''C'' ''L'')[10 := x]) =
       read_row example_int example_float Map.empty (scenario_row ''C'' ''L'')"
    by (elim exE conjE)
  from this [THEN spec, THEN mp, OF ne]
  show "read_row example_int example_float Map.empty (scenario_row ''C'' ''C'') =
        read_row example_int example_float Map.empty (scenario_row ''C'' ''L'')"
    by (simp only: upd)
qed

text \<open>
  C2 as stated fails: two well-formed rows with the same column 10, \<^verbatim>\<open>L\<close>, go
  to different buckets, and the row with \<^verbatim>\<open>C\<close> in column 7 is not in the lab bucket.
\<close>

theorem column_10_counterexample:
  "well_formed_row example_int example_float (scenario_row ''C'' ''L'') 2 3 \<and>
   well_formed_row example_int example_float (scenario_row ''L'' ''L'') 2 3 \<and>
   scenario_row ''C'' ''L'' ! 10 = ''L'' \<and> scenario_row ''L'' ''L'' ! 10 = ''L'' \<and>
   placed_in (read_row example_int example_float Map.empty (scenario_row ''C'' ''L''))
     ''LOG1810'' ''l'' 2 = None \<and>
   placed_in (read_row example_int example_float Map.empty (scenario_row ''C'' ''L''))
     ''LOG1810'' ''c'' 2 = Some [Group 2 ''LUN'' ''B-2325'' 1 ''every_week'' ''0830,0930''] \<and>
   placed_in (read_row example_int example_float Map.empty (scenario_row ''L'' ''L''))
     ''LOG1810'' ''l'' 2 = Some [Group 2 ''LUN'' ''B-2325'' 1 ''every_week'' ''0830,0930'']"
  by code_simp

lemma malformed_row_skipped:
  "length row < 15 \<Longrightarrow> read_row py_int py_float courses row = Inr courses"
  "length row = 15 \<Longrightarrow> list_ex (\<lambda>i. row ! i = []) [1, 2, 3, 6, 7, 10, 11, 13, 14] \<Longrightarrow>
     read_row py_int py_float courses row = Inr courses"
  "length row = 15 \<Longrightarrow> py_int (row ! 2) = None \<Longrightarrow>
     read_row py_int py_float courses row = Inr courses"
  "length row = 15 \<Longrightarrow> py_float (replace CHR '','' CHR ''.'' (row ! 3)) = None \<Longrightarrow>
     read_row py_int py_float courses row = Inr courses"
  "length row = 15 \<Longrightarrow> py_float (replace CHR '','' CHR ''.'' (row ! 3)) = Some NaN \<Longrightarrow>
     read_row py_int py_float courses row = Inr courses"
  by (auto simp: read_row_def Let_def int_of_float_def split: option.splits)

lemma malformed_alternance_row_skipped:
  "length row < 3 \<Longrightarrow> read_alternance_row strptime_date week_map row = Inr week_map"
  "length row = 3 \<Longrightarrow> strptime_date (row ! 0) = None \<Longrightarrow>
     read_alternance_row strptime_date week_map row = Inr week_map"
  by (simp_all add: read_alternance_row_def)

lemma infinite_credit_raises:
  assumes "length row = 15"
    and "list_all (\<lambda>i. row ! i \<noteq> []) [1, 2, 3, 6, 7, 10, 11, 13, 14]"
    and "py_int (row ! 2) = Some n"
    and "py_float (replace CHR '','' CHR ''.'' (row ! 3)) = Some Infinite"
  shows "read_row py_int py_float courses row = Inl OverflowError"
  using assms by (simp add: read_row_def Let_def int_of_float_def)

text \<open>
  C6: rows that are too short, that have an empty required field or whose numbers or date
  do not parse are skipped (\<open>malformed_row_skipped\<close>,
  \<open>malformed_alternance_row_skipped\<close>). A row with too many fields is not: the
  assignment of the row to its names raises \<^verbatim>\<open>ValueError\<close> outside the
  \<^verbatim>\<open>try\<close> block, in both readers, and the ingestion ends with that exception.
\<close>

theorem overlong_row_raises:
  "read_row py_int py_float courses (scenario_row ''C'' ''C'' @ [[]]) = Inl ValueError \<and>
   read_csv_files py_int py_float courses (Some [header, scenario_row ''C'' ''C'' @ [[]]]) =
     Inl ValueError \<and>
   read_alternance_row strptime_date week_map [''2024-09-02'', ''LUNDI'', ''B1'', []] =
     Inl ValueError \<and>
   read_alternance_csv strptime_date (Some [header', [''2024-09-02'', ''LUNDI'', ''B1'', []]]) =
     Inl ValueError"
  by (simp add: read_row_def read_csv_files_def read_alternance_row_def read_alternance_csv_def
        scenario_row_def)

end
